theory Spec2Isabelle
  imports Complex_Main "HOL-Library.Sublist"
begin

section \<open>Python values used by app.py\<close>

text \<open>
  Strings are byte strings (the labels and messages of the program are ASCII).
  A Python float is modelled by the exact real number it denotes; NaN and the
  infinities are outside the model.  The confidence of a detection is a numpy
  float32 and has a type of its own, below.  A file-system path is the list of
  its components, so that \<open>os.path.join\<close> does not depend on the separator.
\<close>

type_synonym path = "string list"

definition path_join :: "path \<Rightarrow> string \<Rightarrow> path" where
  "path_join p c = p @ [c]"

definition digit_char :: "nat \<Rightarrow> char" where
  "digit_char d = ''0123456789'' ! d"

text \<open>\<open>str(n)\<close> for a non-negative and for an arbitrary Python int.\<close>

fun str_nat :: "nat \<Rightarrow> string" where
  "str_nat n = (if n < 10 then [digit_char n] else str_nat (n div 10) @ [digit_char (n mod 10)])"

definition str_int :: "int \<Rightarrow> string" where
  "str_int i = (if i < 0 then CHR ''-'' # str_nat (nat (- i)) else str_nat (nat i))"

definition zero_pad :: "nat \<Rightarrow> string \<Rightarrow> string" where
  "zero_pad w s = replicate (w - length s) (CHR ''0'') @ s"

text \<open>\<open>str.lower()\<close> on ASCII text.\<close>

definition lower_char :: "char \<Rightarrow> char" where
  "lower_char c =
     (case map_of (zip ''ABCDEFGHIJKLMNOPQRSTUVWXYZ'' ''abcdefghijklmnopqrstuvwxyz'') c of
        Some l \<Rightarrow> l
      | None \<Rightarrow> c)"

definition lower :: "string \<Rightarrow> string" where
  "lower s = map lower_char s"

text \<open>\<open>sub in s\<close> on strings: \<open>sub\<close> occurs as a contiguous piece of \<open>s\<close>.\<close>

fun contains :: "string \<Rightarrow> string \<Rightarrow> bool" where
  "contains sub [] = (sub = [])"
| "contains sub (c # cs) = (prefix sub (c # cs) \<or> contains sub cs)"

text \<open>
  The format specifications \<open>:.2f\<close> and \<open>:.4f\<close>: the value is rounded to \<open>d\<close>
  decimals, ties to even, and printed with its sign, integer part and exactly
  \<open>d\<close> fractional digits.
\<close>

definition round_half_even :: "real \<Rightarrow> int" where
  "round_half_even y =
     (let n = \<lfloor>y\<rfloor>; r = y - of_int n
      in if r < 1 / 2 then n else if 1 / 2 < r then n + 1 else if even n then n else n + 1)"

definition format_fixed :: "nat \<Rightarrow> real \<Rightarrow> string" where
  "format_fixed d x =
     (let n = nat (round_half_even (\<bar>x\<bar> * 10 ^ d))
      in (if x < 0 then ''-'' else '''') @ str_nat (n div 10 ^ d) @ ''.''
           @ zero_pad d (str_nat (n mod 10 ^ d)))"

text \<open>\<open>datetime.datetime.now()\<close> and the two \<open>strftime\<close> formats of the program.\<close>

record datetime =
  dt_year :: nat
  dt_month :: nat
  dt_day :: nat
  dt_hour :: nat
  dt_minute :: nat
  dt_second :: nat

definition strftime_alert :: "datetime \<Rightarrow> string" where
  \<comment> \<open>\<open>"%Y-%m-%d %H:%M:%S"\<close>\<close>
  "strftime_alert t =
     zero_pad 4 (str_nat (dt_year t)) @ ''-'' @ zero_pad 2 (str_nat (dt_month t)) @ ''-''
       @ zero_pad 2 (str_nat (dt_day t)) @ '' '' @ zero_pad 2 (str_nat (dt_hour t)) @ '':''
       @ zero_pad 2 (str_nat (dt_minute t)) @ '':'' @ zero_pad 2 (str_nat (dt_second t))"

definition strftime_stamp :: "datetime \<Rightarrow> string" where
  \<comment> \<open>\<open>"%Y%m%d_%H%M%S"\<close>\<close>
  "strftime_stamp t =
     zero_pad 4 (str_nat (dt_year t)) @ zero_pad 2 (str_nat (dt_month t))
       @ zero_pad 2 (str_nat (dt_day t)) @ ''_'' @ zero_pad 2 (str_nat (dt_hour t))
       @ zero_pad 2 (str_nat (dt_minute t)) @ zero_pad 2 (str_nat (dt_second t))"


section \<open>Single-precision numbers\<close>

text \<open>
  A finite numpy \<open>float32\<close>: a sign, a significand and an exponent; its value
  is the significand times two to the power of the exponent, negated when the
  sign is set.  The triples with a significand below \<open>2 ^ 24\<close> and an exponent
  from -149 to 104 are exactly the finite \<open>float32\<close> numbers; \<open>f32_valid\<close> says
  that a triple is one of them.
\<close>

record float32 =
  f32_neg :: bool
  f32_sig :: nat
  f32_exp :: int

definition f32_valid :: "float32 \<Rightarrow> bool" where
  "f32_valid x = (f32_sig x < 2 ^ 24 \<and> - 149 \<le> f32_exp x \<and> f32_exp x \<le> 104)"

definition f32_val :: "float32 \<Rightarrow> real" where
  "f32_val x =
     (let m = (if 0 \<le> f32_exp x then real (f32_sig x) * 2 ^ nat (f32_exp x)
               else real (f32_sig x) / 2 ^ nat (- f32_exp x))
      in if f32_neg x then - m else m)"


section \<open>Collaborators: images, the geolocator, video sinks, CSV files\<close>

text \<open>
  An image is an opaque picture together with the annotations drawn on it by
  \<open>cv2.rectangle\<close> and \<open>cv2.putText\<close>, oldest first.
\<close>

datatype annotation =
    Rectangle "int \<times> int" "int \<times> int" "int \<times> int \<times> int"
  | PutText string "int \<times> int" "int \<times> int \<times> int"

record image =
  pixels :: nat
  drawn :: "annotation list"

definition draw :: "annotation \<Rightarrow> image \<Rightarrow> image" where
  "draw a f = f\<lparr>drawn := drawn f @ [a]\<rparr>"

text \<open>
  What \<open>geocoder.ip('me')\<close> does when it is called: it raises, or it returns
  an object with the fields \<open>ok\<close> and \<open>latlng\<close>.
\<close>

datatype geo_reply = GeoRaises | GeoResult bool "real \<times> real"

text \<open>
  A \<open>cv2.VideoWriter\<close> object: the file it writes, the frames handed to
  \<open>write\<close> so far, and whether \<open>release\<close> has been called.  The global
  \<open>video_writer\<close> refers to such an object by its position in the store.
\<close>

record sink =
  sink_path :: path
  sink_frames :: "image list"
  sink_released :: bool

text \<open>A CSV file as the \<open>csv\<close> module sees it: a header row and data rows.\<close>

record csv_file =
  csv_header :: "string list"
  csv_rows :: "string list list"


section \<open>Globals of app.py\<close>

text \<open>
  An alert is the dict built by \<open>add_alert\<close>; its keys, in insertion order,
  are \<open>id\<close>, \<open>time\<close>, \<open>msg\<close> and \<open>type\<close>.
\<close>

record alert =
  alert_id :: int
  alert_time :: string
  alert_msg :: string
  alert_type :: string

definition alert_keys :: "string list" where
  "alert_keys = [''id'', ''time'', ''msg'', ''type'']"

definition alert_values :: "alert \<Rightarrow> string list" where
  "alert_values a = [str_int (alert_id a), alert_time a, alert_msg a, alert_type a]"

text \<open>
  A thread started by \<open>start_camera\<close> to run \<open>camera_detection\<close>: not yet
  scheduled, inside the \<open>while\<close> loop, or returned.
\<close>

datatype thread_pc = Spawned | Looping | Finished

text \<open>
  The module globals, followed by the part of the world the program acts on:
  the video writers it created, the directories it made, the CSV files it
  wrote (oldest first; a file is opened in mode \<open>'w'\<close>, so a later entry of
  the same name replaces an earlier one), its detection threads and the number
  of sound threads it started.
\<close>

record app_state =
  alerts_log :: "alert list"
  next_alert_id :: int
  camera_running :: bool
  frame :: "image option"
  video_writer :: "nat option"
  session_folder :: "path option"
  all_sessions :: "path list"
  sinks :: "sink list"
  dirs :: "path set"
  files :: "(path \<times> csv_file) list"
  threads :: "thread_pc list"
  beeps :: nat

definition init_state :: app_state where
  "init_state =
     \<lparr>alerts_log = [], next_alert_id = 1, camera_running = False, frame = None,
      video_writer = None, session_folder = None, all_sessions = [], sinks = [],
      dirs = {}, files = [], threads = [], beeps = 0\<rparr>"

definition ALERT_CLASSES :: "string set" where
  "ALERT_CLASSES =
     {''knife'', ''gun'', ''pistol'', ''rifle'', ''firearm'', ''fire'', ''flame'', ''smoke''}"

text \<open>
  \<open>CONF_THRESH = 0.35\<close> is a Python float: the literal denotes the binary64
  number nearest to 0.35, which is \<open>6305039478318694 / 2 ^ 54\<close>, a little below
  0.35.
\<close>

definition CONF_THRESH :: real where
  "CONF_THRESH = 3152519739159347 / 9007199254740992"

text \<open>
  The test \<open>conf < CONF_THRESH\<close> compares a numpy \<open>float32\<close> scalar with that
  Python float, and numpy first brings both to one type.  Which type is a
  matter of the installed numpy, not of the program.  Under value-based
  promotion (the default before numpy 2.0) both become \<open>float64\<close>, which
  changes neither value.  Under weak promotion of Python scalars (numpy 2.0
  and later) the Python float is converted to \<open>float32\<close>, that is rounded to the
  nearest \<open>float32\<close>, \<open>CONF_THRESH_f32\<close>, and the comparison is made there.
  \<open>conf_below\<close> is the result of the test under either rule.
\<close>

definition CONF_THRESH_f32 :: float32 where
  "CONF_THRESH_f32 = \<lparr>f32_neg = False, f32_sig = 11744051, f32_exp = - 25\<rparr>"

datatype promotion = Value_based | Weak

fun conf_below :: "promotion \<Rightarrow> float32 \<Rightarrow> bool" where
  "conf_below Value_based c = (f32_val c < CONF_THRESH)"
| "conf_below Weak c = (f32_val c < f32_val CONF_THRESH_f32)"


section \<open>Helpers\<close>

text \<open>
  \<open>add_alert\<close>: the body runs under \<open>alerts_lock\<close>, so it is one atomic
  step on the ledger.  The clock reading is an argument; the \<open>print\<close> is left
  out.  The function returns the new state and the event.
\<close>

definition add_alert :: "datetime \<Rightarrow> string \<Rightarrow> string \<Rightarrow> app_state \<Rightarrow> app_state \<times> alert" where
  "add_alert now msg typ s =
     (let a = \<lparr>alert_id = next_alert_id s, alert_time = strftime_alert now,
                alert_msg = msg, alert_type = typ\<rparr>
      in (s\<lparr>alerts_log := alerts_log s @ [a], next_alert_id := next_alert_id s + 1\<rparr>, a))"

text \<open>
  \<open>detect_small_fire\<close>: the contours of the colour mask come from OpenCV, each
  with its area and bounding rectangle \<open>(x, y, w, h)\<close>.
\<close>

type_synonym contour = "real \<times> (int \<times> int \<times> int \<times> int)"

fun small_fire_loop :: "contour list \<Rightarrow> image \<times> bool \<Rightarrow> image \<times> bool" where
  "small_fire_loop [] acc = acc"
| "small_fire_loop ((area, (x, y, w, h)) # cs) (f, detected) =
     (if area > 30
      then small_fire_loop cs (draw (Rectangle (x, y) (x + w, y + h) (0, 140, 255)) f, True)
      else small_fire_loop cs (f, detected))"

definition detect_small_fire :: "contour list \<Rightarrow> image \<Rightarrow> image \<times> bool" where
  "detect_small_fire cs f = small_fire_loop cs (f, False)"

fun get_gps_location :: "geo_reply \<Rightarrow> real \<times> real" where
  "get_gps_location GeoRaises = (0, 0)"
| "get_gps_location (GeoResult ok latlng) = (if ok then latlng else (0, 0))"

definition write_csv :: "alert list \<Rightarrow> csv_file" where
  \<comment> \<open>\<open>csv.DictWriter\<close> with \<open>fieldnames = alerts_log[0].keys()\<close>, \<open>writeheader\<close>, \<open>writerows\<close>\<close>
  "write_csv entries = \<lparr>csv_header = alert_keys, csv_rows = map alert_values entries\<rparr>"

definition makedirs :: "path \<Rightarrow> path set \<Rightarrow> path set" where
  \<comment> \<open>the directory and the directories above it exist afterwards\<close>
  "makedirs p ds = ds \<union> set (tl (prefixes p))"

datatype error = TypeError

definition save_alerts_csv :: "datetime \<Rightarrow> app_state \<Rightarrow> error + app_state" where
  "save_alerts_csv now s =
     (if alerts_log s = [] then Inr s
      else case session_folder s of
        None \<Rightarrow> Inl TypeError
      | Some folder \<Rightarrow>
          (let s1 = (if folder \<notin> dirs s then s\<lparr>dirs := makedirs folder (dirs s)\<rparr> else s);
               filename = path_join folder (''alerts_'' @ strftime_stamp now @ ''.csv'')
           in Inr (s1\<lparr>files := files s1 @ [(filename, write_csv (alerts_log s1))]\<rparr>)))"


section \<open>The detection thread\<close>

text \<open>
  What one pass of the \<open>while\<close> loop receives from its collaborators after a
  successful \<open>cap.read()\<close>: the frame \<open>f\<close>; the label table \<open>model.names\<close>;
  \<open>r.boxes\<close> (\<open>None\<close>, or the class id and confidence of every box, each
  with the geolocator's reply should the program ask while it handles that
  box); the contours found by the colour heuristic and the geolocator's reply
  for it; and the result of \<open>r.plot()\<close> (\<open>None\<close> when it raises).  It also
  names the promotion rule of the numpy that runs the pass.
\<close>

record box =
  box_cls :: int
  box_conf :: float32
  box_geo :: geo_reply

record frame_input =
  raw :: image
  numpy_promotion :: promotion
  names :: "(int \<times> string) list"
  boxes :: "box list option"
  contours :: "contour list"
  fire_geo :: geo_reply
  plot :: "image option"

text \<open>
  The block after each fire or weapon alert (lines 139-145 and 152-158): look
  the position up, and unless it is \<open>[0.0, 0.0]\<close> draw it on the frame and
  record it.
\<close>

definition gps_block :: "datetime \<Rightarrow> geo_reply \<Rightarrow> app_state \<times> image \<Rightarrow> app_state \<times> image" where
  "gps_block now reply sf =
     (let gps = get_gps_location reply
      in if gps \<noteq> (0, 0)
         then (let lat = fst gps; lon = snd gps;
                   f1 = draw (Rectangle (20, 20) (280, 90) (0, 255, 255)) (snd sf);
                   f2 = draw (PutText (''GPS: '' @ format_fixed 4 lat @ '','' @ format_fixed 4 lon)
                                (30, 65) (0, 255, 255)) f1;
                   s1 = fst (add_alert now
                          (''GPS Location: '' @ format_fixed 4 lat @ '', '' @ format_fixed 4 lon)
                          ''info'' (fst sf))
               in (s1, f2))
         else sf)"

definition box_name :: "(int \<times> string) list \<Rightarrow> int \<Rightarrow> string" where
  \<comment> \<open>\<open>str(names.get(cls_id, cls_id)).lower()\<close>\<close>
  "box_name nms c = lower (case map_of nms c of Some n \<Rightarrow> n | None \<Rightarrow> str_int c)"

definition play_beep :: "app_state \<Rightarrow> app_state" where
  \<comment> \<open>a daemon thread running \<open>playsound\<close> is started and forgotten\<close>
  "play_beep s = s\<lparr>beeps := beeps s + 1\<rparr>"

text \<open>The body of \<open>for cls_id, conf in zip(cls_ids, confs)\<close> (lines 128-145).\<close>

definition handle_box :: "datetime \<Rightarrow> promotion \<Rightarrow> (int \<times> string) list \<Rightarrow> box \<Rightarrow> app_state \<times> image \<Rightarrow> app_state \<times> image" where
  "handle_box now pr nms b sf =
     (if conf_below pr (box_conf b) then sf
      else (let name = box_name nms (box_cls b)
            in if name \<in> ALERT_CLASSES
               then (let typ = (if contains ''fire'' name \<or> contains ''flame'' name
                                then ''fire'' else ''weapon'');
                         s1 = fst (add_alert now
                                (name @ '' detected (conf '' @ format_fixed 2 (f32_val (box_conf b)) @ '')'')
                                typ (fst sf))
                     in gps_block now (box_geo b) (play_beep s1, snd sf))
               else sf))"

definition object_detection :: "datetime \<Rightarrow> frame_input \<Rightarrow> app_state \<times> image \<Rightarrow> app_state \<times> image" where
  "object_detection now inp sf =
     (case boxes inp of
        None \<Rightarrow> sf
      | Some bs \<Rightarrow> if length bs > 0 then fold (handle_box now (numpy_promotion inp) (names inp)) bs sf else sf)"

definition small_fire_detection :: "datetime \<Rightarrow> frame_input \<Rightarrow> app_state \<times> image \<Rightarrow> app_state \<times> image" where
  "small_fire_detection now inp sf =
     (let r = detect_small_fire (contours inp) (snd sf)
      in if snd r
         then gps_block now (fire_geo inp)
                (play_beep (fst (add_alert now ''Small flame/matchstick detected'' ''fire'' (fst sf))),
                 fst r)
         else (fst sf, fst r))"

text \<open>
  \<open>video_writer.write(frame)\<close>: the frame is appended to the writer's file;
  OpenCV drops a frame written to a released writer.
\<close>

definition sink_write :: "nat \<Rightarrow> image \<Rightarrow> app_state \<Rightarrow> app_state" where
  "sink_write h fr s =
     (if h < length (sinks s) \<and> \<not> sink_released (sinks s ! h)
      then s\<lparr>sinks := (sinks s)[h := (sinks s ! h)\<lparr>sink_frames := sink_frames (sinks s ! h) @ [fr]\<rparr>]\<rparr>
      else s)"

definition sink_release :: "nat \<Rightarrow> app_state \<Rightarrow> app_state" where
  "sink_release h s =
     (if h < length (sinks s)
      then s\<lparr>sinks := (sinks s)[h := (sinks s ! h)\<lparr>sink_released := True\<rparr>]\<rparr>
      else s)"

text \<open>
  Lines 118-167, one pass of the loop after the frame was read.  It returns
  the new state and the annotated frame it produced.
\<close>

definition loop_body :: "datetime \<Rightarrow> frame_input \<Rightarrow> app_state \<Rightarrow> app_state \<times> image" where
  "loop_body now inp s =
     (let sf1 = object_detection now inp (s, raw inp);
          sf2 = small_fire_detection now inp sf1;
          fr = (case plot inp of Some p \<Rightarrow> p | None \<Rightarrow> snd sf2);
          s3 = (fst sf2)\<lparr>frame := Some fr\<rparr>
      in (case video_writer s3 of None \<Rightarrow> s3 | Some h \<Rightarrow> sink_write h fr s3, fr))"

text \<open>Lines 96-110: the camera is opened, and the session is set up.\<close>

definition camera_detection_begin :: "bool \<Rightarrow> datetime \<Rightarrow> app_state \<Rightarrow> app_state \<times> thread_pc" where
  "camera_detection_begin opened now s =
     (if \<not> opened
      then ((fst (add_alert now ''Camera failed to open'' ''info'' s))\<lparr>camera_running := False\<rparr>,
            Finished)
      else (let folder = path_join [''sessions''] (strftime_stamp now);
                video_path = path_join folder ''recorded_video.mp4''
            in (s\<lparr>session_folder := Some folder,
                   dirs := makedirs folder (dirs s),
                   all_sessions := all_sessions s @ [folder],
                   sinks := sinks s @ [\<lparr>sink_path = video_path, sink_frames = [], sink_released = False\<rparr>],
                   video_writer := Some (length (sinks s))\<rparr>,
                Looping)))"

text \<open>
  Lines 169-173, after the loop.  An exception of \<open>save_alerts_csv\<close> ends the
  thread with the state as it is.
\<close>

definition camera_detection_end :: "datetime \<Rightarrow> app_state \<Rightarrow> app_state" where
  "camera_detection_end now s =
     (let s1 = (case video_writer s of None \<Rightarrow> s | Some h \<Rightarrow> sink_release h s);
          s2 = s1\<lparr>camera_running := False\<rparr>
      in case save_alerts_csv now s2 of Inl e \<Rightarrow> s2 | Inr s3 \<Rightarrow> s3)"

text \<open>
  One evaluation of \<open>while camera_running\<close> and the pass that follows it
  (lines 112-167), given what \<open>cap.read()\<close> returns (\<open>None\<close> when \<open>ret\<close> is
  false).  The result tells whether the thread stays in the loop, and the
  frame the pass produced.
\<close>

definition loop_iteration :: "datetime \<Rightarrow> frame_input option \<Rightarrow> app_state \<Rightarrow> app_state \<times> thread_pc \<times> image option" where
  "loop_iteration now rd s =
     (if \<not> camera_running s then (camera_detection_end now s, Finished, None)
      else case rd of
        None \<Rightarrow>
          (camera_detection_end now (fst (add_alert now ''Frame read failed'' ''info'' s)),
           Finished, None)
      | Some inp \<Rightarrow> (let r = loop_body now inp s in (fst r, Looping, Some (snd r))))"


section \<open>Video streaming and routes\<close>

text \<open>
  One turn of the loop of \<open>generate_frames\<close>: nothing is yielded while the
  global \<open>frame\<close> is \<open>None\<close>, otherwise the frame is encoded and yielded.
\<close>

definition generate_frames :: "app_state \<Rightarrow> image option" where
  "generate_frames s = frame s"

definition get_alerts :: "app_state \<Rightarrow> alert list" where
  "get_alerts s = alerts_log s"

definition start_camera :: "app_state \<Rightarrow> app_state \<times> string" where
  "start_camera s =
     (if camera_running s then (s, ''Camera already running'')
      else (s\<lparr>camera_running := True, threads := threads s @ [Spawned]\<rparr>, ''Camera started''))"

definition stop_camera :: "app_state \<Rightarrow> app_state \<times> string" where
  "stop_camera s =
     (if \<not> camera_running s then (s, ''Camera not running'')
      else (s\<lparr>camera_running := False\<rparr>, ''Camera stopping''))"

datatype response =
    Status string nat
  | Attachment string string csv_file

definition download_alerts :: "datetime \<Rightarrow> app_state \<Rightarrow> response" where
  "download_alerts now s =
     (if alerts_log s = [] then Status ''No alerts to download'' 404
      else Attachment ''text/csv'' (''alerts_'' @ strftime_stamp now @ ''.csv'')
             (write_csv (alerts_log s)))"

definition main_startup :: "datetime \<Rightarrow> app_state \<Rightarrow> app_state" where
  \<comment> \<open>the \<open>__main__\<close> block before \<open>app.run\<close>\<close>
  "main_startup now s =
     (let s1 = fst (add_alert now ''Smart Surveillance started'' ''info'' s)
      in s1\<lparr>dirs := makedirs [''sessions''] (dirs s1)\<rparr>)"


section \<open>The running process\<close>

text \<open>
  The process is a sequence of steps, interleaved in any order: the start-up
  block, a request to \<open>/start_camera\<close> or \<open>/stop_camera\<close>, a detection thread
  entering \<open>camera_detection\<close>, and a detection thread evaluating its loop
  condition and making one pass.  Each step carries what the world supplies to
  it: the clock, whether the camera opened, what \<open>cap.read()\<close> returned.  All
  clock readings within one step return the same time.  A step of a thread
  that does not exist or is not at that point changes nothing.  The read-only
  routes are the functions above.  The second component of \<open>step_out\<close> is the
  annotated frame the step produced, if it produced one.
\<close>

datatype event =
    Startup datetime
  | Start_camera
  | Stop_camera
  | Thread_begin nat bool datetime
  | Thread_iter nat datetime "frame_input option"

fun step_out :: "event \<Rightarrow> app_state \<Rightarrow> app_state \<times> image option" where
  "step_out (Startup now) s = (main_startup now s, None)"
| "step_out Start_camera s = (fst (start_camera s), None)"
| "step_out Stop_camera s = (fst (stop_camera s), None)"
| "step_out (Thread_begin tid opened now) s =
     (if tid < length (threads s) \<and> threads s ! tid = Spawned
      then (let r = camera_detection_begin opened now s
            in ((fst r)\<lparr>threads := (threads (fst r))[tid := snd r]\<rparr>, None))
      else (s, None))"
| "step_out (Thread_iter tid now rd) s =
     (if tid < length (threads s) \<and> threads s ! tid = Looping
      then (let r = loop_iteration now rd s
            in ((fst r)\<lparr>threads := (threads (fst r))[tid := fst (snd r)]\<rparr>, snd (snd r)))
      else (s, None))"

definition step :: "event \<Rightarrow> app_state \<Rightarrow> app_state" where
  "step e s = fst (step_out e s)"

fun run :: "event list \<Rightarrow> app_state \<Rightarrow> app_state" where
  "run [] s = s"
| "run (e # es) s = run es (step e s)"

text \<open>The annotated frames produced along a run, oldest first.\<close>

fun produced :: "event list \<Rightarrow> app_state \<Rightarrow> image list" where
  "produced [] s = []"
| "produced (e # es) s =
     (case snd (step_out e s) of None \<Rightarrow> [] | Some fr \<Rightarrow> [fr]) @ produced es (step e s)"

text \<open>A sequence of calls of \<open>add_alert\<close>, with the events they return.\<close>

fun add_alerts :: "(datetime \<times> string \<times> string) list \<Rightarrow> app_state \<Rightarrow> app_state \<times> alert list" where
  "add_alerts [] s = (s, [])"
| "add_alerts ((now, msg, typ) # cs) s =
     (let r = add_alert now msg typ s; rest = add_alerts cs (fst r)
      in (fst rest, snd r # snd rest))"


section \<open>The ledger along a run\<close>

text \<open>
  \<open>grows s s'\<close>: the ledger of \<open>s'\<close> is the ledger of \<open>s\<close> followed by
  events numbered consecutively from the next id of \<open>s\<close>.  \<open>ledger_ok s\<close>: the
  events of the ledger are numbered 1, 2, ... up to the id before the next.
\<close>

definition grows :: "app_state \<Rightarrow> app_state \<Rightarrow> bool" where
  "grows s s' =
     (next_alert_id s \<le> next_alert_id s' \<and> prefix (alerts_log s) (alerts_log s') \<and>
      map alert_id (drop (length (alerts_log s)) (alerts_log s')) =
        [next_alert_id s .. next_alert_id s' - 1])"

definition ledger_ok :: "app_state \<Rightarrow> bool" where
  "ledger_ok s = (1 \<le> next_alert_id s \<and> map alert_id (alerts_log s) = [1 .. next_alert_id s - 1])"


section \<open>Vocabulary of the properties\<close>

text \<open>
  \<open>new_alerts s s'\<close>: the events appended to the ledger between \<open>s\<close> and
  \<open>s'\<close>.  \<open>restricted a\<close>: the event is a fire or a weapon event.
  \<open>hit pr nms b\<close>: the confidence of the detection passes the threshold test
  under the promotion rule \<open>pr\<close> and its lowercased label is in the restricted
  set.  \<open>gps_alert\<close> and \<open>gps_marks\<close>: the event and the annotations that
  report a position.  The remaining constants are the concrete inputs of the
  examples.
\<close>

definition new_alerts :: "app_state \<Rightarrow> app_state \<Rightarrow> alert list" where
  "new_alerts s s' = drop (length (alerts_log s)) (alerts_log s')"

definition restricted :: "alert \<Rightarrow> bool" where
  "restricted a = (alert_type a = ''fire'' \<or> alert_type a = ''weapon'')"

definition hit :: "promotion \<Rightarrow> (int \<times> string) list \<Rightarrow> box \<Rightarrow> bool" where
  "hit pr nms b =
     (\<not> conf_below pr (box_conf b) \<and>
      box_name nms (box_cls b) \<in>
        {''knife'', ''gun'', ''pistol'', ''rifle'', ''firearm'', ''fire'', ''flame'', ''smoke''})"

definition gps_alert :: "datetime \<Rightarrow> int \<Rightarrow> real \<times> real \<Rightarrow> alert" where
  "gps_alert now i gps =
     \<lparr>alert_id = i, alert_time = strftime_alert now,
      alert_msg = ''GPS Location: '' @ format_fixed 4 (fst gps) @ '', '' @ format_fixed 4 (snd gps),
      alert_type = ''info''\<rparr>"

definition gps_marks :: "real \<times> real \<Rightarrow> annotation list" where
  "gps_marks gps =
     [Rectangle (20, 20) (280, 90) (0, 255, 255),
      PutText (''GPS: '' @ format_fixed 4 (fst gps) @ '','' @ format_fixed 4 (snd gps))
        (30, 65) (0, 255, 255)]"

text \<open>
  Confidences of the examples: the \<open>float32\<close> numbers nearest to 0.35 (it is
  0.3499999940395355), to 0.349999, to 0.9 and to 0.99, and the one that
  follows the first (0.3500000238418579).
\<close>

definition conf_035 :: float32 where
  "conf_035 = \<lparr>f32_neg = False, f32_sig = 11744051, f32_exp = - 25\<rparr>"

definition conf_035_next :: float32 where
  "conf_035_next = \<lparr>f32_neg = False, f32_sig = 11744052, f32_exp = - 25\<rparr>"

definition conf_0349999 :: float32 where
  "conf_0349999 = \<lparr>f32_neg = False, f32_sig = 11744018, f32_exp = - 25\<rparr>"

definition conf_09 :: float32 where
  "conf_09 = \<lparr>f32_neg = False, f32_sig = 15099494, f32_exp = - 24\<rparr>"

definition conf_099 :: float32 where
  "conf_099 = \<lparr>f32_neg = False, f32_sig = 16609444, f32_exp = - 24\<rparr>"

definition knife_names :: "(int \<times> string) list" where
  "knife_names = [(43, ''Knife''), (0, ''person'')]"

definition knife_at :: "float32 \<Rightarrow> box" where
  "knife_at c = \<lparr>box_cls = 43, box_conf = c, box_geo = GeoRaises\<rparr>"

definition t0 :: datetime where
  "t0 = \<lparr>dt_year = 2025, dt_month = 3, dt_day = 7, dt_hour = 9, dt_minute = 5, dt_second = 0\<rparr>"

definition img0 :: image where "img0 = \<lparr>pixels = 0, drawn = []\<rparr>"

definition one_alert_state :: app_state where
  "one_alert_state = main_startup t0 (init_state\<lparr>session_folder := Some [''sessions'', ''x'']\<rparr>)"

text \<open>
  \<open>quiet inp\<close>: on this frame the primary detector returns no box and the
  colour heuristic flags nothing.  \<open>shown inp\<close>: the annotated frame of such a
  pass, the plot of the detector's result or else the frame as read.
\<close>

definition quiet :: "frame_input \<Rightarrow> bool" where
  "quiet inp =
     ((boxes inp = None \<or> boxes inp = Some []) \<and>
      \<not> snd (detect_small_fire (contours inp) (raw inp)))"

definition shown :: "frame_input \<Rightarrow> image" where
  "shown inp = (case plot inp of Some p \<Rightarrow> p | None \<Rightarrow> raw inp)"

definition fr1 :: frame_input where
  "fr1 = \<lparr>raw = \<lparr>pixels = 1, drawn = []\<rparr>, numpy_promotion = Weak,
          names = [(43, ''knife'')], boxes = None,
          contours = [], fire_geo = GeoRaises, plot = Some \<lparr>pixels = 11, drawn = []\<rparr>\<rparr>"

definition fr2 :: frame_input where
  "fr2 = \<lparr>raw = \<lparr>pixels = 2, drawn = []\<rparr>, numpy_promotion = Weak,
          names = [(43, ''knife'')], boxes = Some [],
          contours = [(12, (5, 5, 3, 4))], fire_geo = GeoRaises, plot = None\<rparr>"

definition fr3 :: frame_input where
  "fr3 = \<lparr>raw = \<lparr>pixels = 3, drawn = []\<rparr>, numpy_promotion = Weak,
          names = [(43, ''knife'')], boxes = Some [],
          contours = [(30, (0, 0, 6, 5))], fire_geo = GeoRaises, plot = Some \<lparr>pixels = 13, drawn = []\<rparr>\<rparr>"

text \<open>
  \<open>detection_only s s'\<close>: \<open>s'\<close> differs from \<open>s\<close> in the ledger and the count
  of sound threads at most.  \<open>session_inv s\<close>: a thread inside the loop has set
  the session folder.  The event lists are the runs of the examples.
\<close>

definition detection_only :: "app_state \<Rightarrow> app_state \<Rightarrow> bool" where
  "detection_only s s' =
     (s' = s\<lparr>alerts_log := alerts_log s', next_alert_id := next_alert_id s', beeps := beeps s'\<rparr>)"

definition session_inv :: "app_state \<Rightarrow> bool" where
  "session_inv s = (Looping \<in> set (threads s) \<longrightarrow> session_folder s \<noteq> None)"

definition t1 :: datetime where
  "t1 = \<lparr>dt_year = 2025, dt_month = 3, dt_day = 7, dt_hour = 9, dt_minute = 6, dt_second = 30\<rparr>"

definition two_sessions :: "event list" where
  "two_sessions =
     [Start_camera, Thread_begin 0 True t0, Thread_iter 0 t0 (Some fr1), Stop_camera,
      Thread_iter 0 t0 (Some fr2), Start_camera, Thread_begin 1 True t0]"

definition first_session :: "event list" where
  "first_session = [Start_camera, Thread_begin 0 True t0, Thread_iter 0 t0 None]"

definition second_session :: "event list" where
  "second_session = [Start_camera, Thread_begin 1 True t1, Stop_camera]"


section \<open>Properties of the ledger\<close>

lemma grows_refl: "grows s s"
  by (simp add: grows_def)

lemma grows_same:
  "alerts_log s' = alerts_log s \<Longrightarrow> next_alert_id s' = next_alert_id s \<Longrightarrow> grows s s'"
  by (simp add: grows_def)

lemma upto_append: "i \<le> j \<Longrightarrow> j \<le> k \<Longrightarrow> [i .. j - 1] @ [j .. k - 1] = [i .. k - 1]"
  for i j k :: int
  using upto_split2[of i "j - 1" "k - 1"] by (cases "j = i") (auto)

lemma grows_trans: "grows a b \<Longrightarrow> grows b c \<Longrightarrow> grows a c"
proof -
  assume ab: "grows a b" and bc: "grows b c"
  from ab obtain n1 where b: "alerts_log b = alerts_log a @ n1"
    and n1: "map alert_id n1 = [next_alert_id a .. next_alert_id b - 1]"
    and le1: "next_alert_id a \<le> next_alert_id b"
    by (auto simp: grows_def prefix_def)
  from bc obtain n2 where c: "alerts_log c = alerts_log b @ n2"
    and n2: "map alert_id n2 = [next_alert_id b .. next_alert_id c - 1]"
    and le2: "next_alert_id b \<le> next_alert_id c"
    by (auto simp: grows_def prefix_def)
  show ?thesis
    using b c n1 n2 le1 le2 by (simp add: grows_def upto_append)
qed

lemma grows_add_alert: "grows s (fst (add_alert now m t s))"
  by (simp add: grows_def add_alert_def Let_def)

lemma ledger_ok_grows: "ledger_ok s \<Longrightarrow> grows s s' \<Longrightarrow> ledger_ok s'"
proof -
  assume ok: "ledger_ok s" and g: "grows s s'"
  from g obtain n1 where b: "alerts_log s' = alerts_log s @ n1"
    and n1: "map alert_id n1 = [next_alert_id s .. next_alert_id s' - 1]"
    and le1: "next_alert_id s \<le> next_alert_id s'"
    by (auto simp: grows_def prefix_def)
  show ?thesis using ok b n1 le1 by (simp add: ledger_ok_def upto_append)
qed

lemma grows_play_beep: "grows s (play_beep s)"
  by (simp add: grows_same play_beep_def)

lemma grows_gps_block: "grows (fst sf) (fst (gps_block now reply sf))"
  by (simp add: gps_block_def Let_def grows_refl grows_add_alert)

lemma grows_gps_block_pair: "grows s (fst (gps_block now reply (s, f)))"
  using grows_gps_block[of "(s, f)" now reply] by simp

lemma grows_alert_beep_gps:
  "grows s (fst (gps_block now g (play_beep (fst (add_alert now m t s)), f)))"
  by (rule grows_trans[OF grows_trans[OF grows_add_alert grows_play_beep] grows_gps_block_pair])

lemma grows_handle_box: "grows (fst sf) (fst (handle_box now pr nms b sf))"
  by (simp add: handle_box_def Let_def grows_refl grows_alert_beep_gps)

lemma grows_fold_handle_box: "grows (fst sf) (fst (fold (handle_box now pr nms) bs sf))"
proof (induction bs arbitrary: sf)
  case Nil
  show ?case by (simp add: grows_refl)
next
  case (Cons b bs)
  show ?case
    using grows_trans[OF grows_handle_box Cons.IH] by simp
qed

lemma grows_object_detection: "grows (fst sf) (fst (object_detection now inp sf))"
  by (simp add: object_detection_def grows_refl grows_fold_handle_box split: option.splits)

lemma grows_small_fire_detection: "grows (fst sf) (fst (small_fire_detection now inp sf))"
  by (simp add: small_fire_detection_def Let_def grows_refl grows_alert_beep_gps)

lemma grows_sink_write: "grows s (sink_write h fr s)"
  by (simp add: grows_same sink_write_def)

lemma grows_sink_release: "grows s (sink_release h s)"
  by (simp add: grows_same sink_release_def)

lemma grows_loop_body: "grows s (fst (loop_body now inp s))"
proof -
  let ?sf1 = "object_detection now inp (s, raw inp)"
  let ?sf2 = "small_fire_detection now inp ?sf1"
  have a: "grows s (fst ?sf2)"
    using grows_trans[OF grows_object_detection[of "(s, raw inp)"] grows_small_fire_detection[of ?sf1]]
    by simp
  have b: "grows (fst ?sf2) ((fst ?sf2)\<lparr>frame := Some fr\<rparr>)" for fr
    by (simp add: grows_same)
  have c: "grows x (case video_writer x of None \<Rightarrow> x | Some h \<Rightarrow> sink_write h fr x)" for x fr
    by (simp add: grows_refl grows_sink_write split: option.splits)
  show ?thesis
    unfolding loop_body_def Let_def fst_conv
    by (rule grows_trans[OF grows_trans[OF a b] c])
qed

lemma grows_save_alerts_csv: "save_alerts_csv now s = Inr s' \<Longrightarrow> grows s s'"
  by (auto simp: save_alerts_csv_def Let_def grows_same split: if_splits option.splits)

lemma grows_camera_detection_end: "grows s (camera_detection_end now s)"
proof -
  let ?s1 = "case video_writer s of None \<Rightarrow> s | Some h \<Rightarrow> sink_release h s"
  have a: "grows s ?s1"
    by (simp add: grows_refl grows_sink_release split: option.splits)
  have b: "grows ?s1 (?s1\<lparr>camera_running := False\<rparr>)"
    by (simp add: grows_same)
  have c: "grows x (case save_alerts_csv now x of Inl e \<Rightarrow> x | Inr s3 \<Rightarrow> s3)" for x
    by (simp add: grows_refl grows_save_alerts_csv split: sum.splits)
  show ?thesis
    unfolding camera_detection_end_def Let_def
    by (rule grows_trans[OF grows_trans[OF a b] c])
qed

lemma grows_camera_detection_begin: "grows s (fst (camera_detection_begin opened now s))"
proof (cases opened)
  case True
  then show ?thesis by (simp add: camera_detection_begin_def Let_def grows_same)
next
  case False
  have "grows (fst (add_alert now m t s)) ((fst (add_alert now m t s))\<lparr>camera_running := False\<rparr>)" for m t
    by (simp add: grows_same)
  from grows_trans[OF grows_add_alert this] False show ?thesis
    by (simp add: camera_detection_begin_def)
qed

lemma grows_loop_iteration: "grows s (fst (loop_iteration now rd s))"
  using grows_trans[OF grows_add_alert grows_camera_detection_end]
  by (simp add: loop_iteration_def Let_def grows_camera_detection_end grows_loop_body split: option.splits)

lemma grows_threads_update: "grows s s' \<Longrightarrow> grows s (s'\<lparr>threads := ts\<rparr>)"
  by (simp add: grows_def)

lemma grows_main_startup: "grows s (main_startup now s)"
  using grows_add_alert[of s now]
  by (simp add: main_startup_def Let_def grows_def)

lemma grows_step: "grows s (step e s)"
proof (cases e)
  case (Startup now)
  then show ?thesis by (simp add: step_def grows_main_startup)
next
  case Start_camera
  then show ?thesis by (simp add: step_def start_camera_def grows_same grows_refl)
next
  case Stop_camera
  then show ?thesis by (simp add: step_def stop_camera_def grows_same grows_refl)
next
  case (Thread_begin tid opened now)
  then show ?thesis
    by (simp add: step_def Let_def grows_refl grows_threads_update grows_camera_detection_begin)
next
  case (Thread_iter tid now rd)
  then show ?thesis
    by (simp add: step_def Let_def grows_refl grows_threads_update grows_loop_iteration)
qed

lemma grows_run: "grows s (run es s)"
proof (induction es arbitrary: s)
  case Nil
  show ?case by (simp add: grows_refl)
next
  case (Cons e es)
  show ?case using grows_trans[OF grows_step Cons.IH] by simp
qed

lemma ledger_ok_init: "ledger_ok init_state"
  by (simp add: ledger_ok_def init_state_def)

lemma grows_add_alerts: "grows s (fst (add_alerts cs s))"
proof (induction cs arbitrary: s)
  case Nil
  show ?case by (simp add: grows_refl)
next
  case (Cons c cs)
  obtain now m t where c: "c = (now, m, t)" by (cases c) auto
  show ?case using grows_trans[OF grows_add_alert Cons.IH] c by (simp add: Let_def)
qed

lemma add_alerts_log: "alerts_log (fst (add_alerts cs s)) = alerts_log s @ snd (add_alerts cs s)"
proof (induction cs arbitrary: s)
  case Nil
  show ?case by simp
next
  case (Cons c cs)
  obtain now m t where c: "c = (now, m, t)" by (cases c) auto
  show ?case using Cons.IH[of "fst (add_alert now m t s)"] c
    by (simp add: Let_def add_alert_def)
qed

lemma add_alerts_length: "length (snd (add_alerts cs s)) = length cs"
  by (induction cs arbitrary: s) (auto simp: Let_def)

lemma ledger_ok_ids: "ledger_ok s \<Longrightarrow> next_alert_id s = int (length (alerts_log s)) + 1"
proof -
  assume ok: "ledger_ok s"
  then have m: "map alert_id (alerts_log s) = [1 .. next_alert_id s - 1]"
    and le: "1 \<le> next_alert_id s"
    by (simp_all add: ledger_ok_def)
  from arg_cong[OF m, of length] have "length (alerts_log s) = nat (next_alert_id s - 1)"
    by simp
  with le show ?thesis by simp
qed

text \<open>
  Claim C1.  After any run of the process from its initial state (any number
  of start/stop cycles and detection threads), the ids in the ledger are
  1, 2, ..., n in insertion order; any further sequence of \<open>add_alert\<close> calls
  returns events with the ids n + 1, n + 2, ... in call order, without gap or
  repetition, and the snapshot served by \<open>/alerts\<close> is the old ledger followed
  by the returned events in that order.
\<close>

theorem alert_ids_sequential:
  "let s = run evs init_state; r = add_alerts calls s; n = int (length (alerts_log s))
   in map alert_id (alerts_log s) = [1 .. n] \<and>
      map alert_id (snd r) = [n + 1 .. n + int (length calls)] \<and>
      alerts_log (fst r) = alerts_log s @ snd r \<and>
      get_alerts (fst r) = alerts_log s @ snd r"
proof -
  let ?s = "run evs init_state"
  let ?r = "add_alerts calls ?s"
  let ?n = "int (length (alerts_log ?s))"
  have ok: "ledger_ok ?s"
    by (rule ledger_ok_grows[OF ledger_ok_init grows_run])
  have ok': "ledger_ok (fst ?r)"
    by (rule ledger_ok_grows[OF ok grows_add_alerts])
  have n: "next_alert_id ?s = ?n + 1"
    by (rule ledger_ok_ids[OF ok])
  have a: "map alert_id (alerts_log ?s) = [1 .. ?n]"
    using ok n by (simp add: ledger_ok_def)
  have lg: "alerts_log (fst ?r) = alerts_log ?s @ snd ?r"
    by (rule add_alerts_log)
  have n': "next_alert_id (fst ?r) = ?n + int (length calls) + 1"
    using ledger_ok_ids[OF ok'] lg by (simp add: add_alerts_length)
  have "map alert_id (alerts_log ?s) @ map alert_id (snd ?r) = [1 .. ?n] @ [?n + 1 .. ?n + int (length calls)]"
    using ok' n' lg upto_append[of 1 "?n + 1" "?n + int (length calls) + 1"]
    by (simp add: ledger_ok_def)
  with a have b: "map alert_id (snd ?r) = [?n + 1 .. ?n + int (length calls)]"
    by simp
  show ?thesis
    using a b lg by (simp add: Let_def get_alerts_def)
qed


section \<open>Detections, categories and positions\<close>

lemma gps_block_log:
  "alerts_log (fst (gps_block now g (s, f))) =
     alerts_log s @
       (if get_gps_location g \<noteq> (0, 0)
        then [\<lparr>alert_id = next_alert_id s, alert_time = strftime_alert now,
               alert_msg = ''GPS Location: '' @ format_fixed 4 (fst (get_gps_location g)) @ '', ''
                             @ format_fixed 4 (snd (get_gps_location g)),
               alert_type = ''info''\<rparr>]
        else [])"
  by (simp add: gps_block_def Let_def add_alert_def)

lemma handle_box_log:
  "alerts_log (fst (handle_box now pr nms b (s, f))) =
     alerts_log s @
       (if hit pr nms b
        then \<lparr>alert_id = next_alert_id s, alert_time = strftime_alert now,
               alert_msg = box_name nms (box_cls b) @ '' detected (conf ''
                             @ format_fixed 2 (f32_val (box_conf b)) @ '')'',
               alert_type = (if contains ''fire'' (box_name nms (box_cls b)) \<or>
                                contains ''flame'' (box_name nms (box_cls b))
                             then ''fire'' else ''weapon'')\<rparr>
             # (if get_gps_location (box_geo b) \<noteq> (0, 0)
                then [\<lparr>alert_id = next_alert_id s + 1, alert_time = strftime_alert now,
                       alert_msg = ''GPS Location: ''
                          @ format_fixed 4 (fst (get_gps_location (box_geo b))) @ '', ''
                          @ format_fixed 4 (snd (get_gps_location (box_geo b))),
                       alert_type = ''info''\<rparr>]
                else [])
        else [])"
  by (simp add: handle_box_def hit_def ALERT_CLASSES_def Let_def gps_block_log
      play_beep_def add_alert_def)

lemma handle_box_restricted:
  "filter restricted (alerts_log (fst (handle_box now pr nms b sf))) =
     filter restricted (alerts_log (fst sf)) @
       (if hit pr nms b
        then [\<lparr>alert_id = next_alert_id (fst sf), alert_time = strftime_alert now,
               alert_msg = box_name nms (box_cls b) @ '' detected (conf ''
                             @ format_fixed 2 (f32_val (box_conf b)) @ '')'',
               alert_type = (if contains ''fire'' (box_name nms (box_cls b)) \<or>
                                contains ''flame'' (box_name nms (box_cls b))
                             then ''fire'' else ''weapon'')\<rparr>]
        else [])"
  using handle_box_log[of now pr nms b "fst sf" "snd sf"]
  by (simp add: restricted_def)

lemma fold_handle_box_restricted:
  "length (filter restricted (alerts_log (fst (fold (handle_box now pr nms) bs sf)))) =
     length (filter restricted (alerts_log (fst sf))) + length (filter (hit pr nms) bs)"
proof (induction bs arbitrary: sf)
  case Nil
  show ?case by simp
next
  case (Cons b bs)
  show ?case
    using Cons.IH[of "handle_box now pr nms b sf"] handle_box_restricted[of now pr nms b sf]
    by simp
qed

lemma handle_box_prefix: "prefix (alerts_log s) (alerts_log (fst (handle_box now pr nms b (s, f))))"
  by (simp add: handle_box_log)

lemma handle_box_new:
  "new_alerts s (fst (handle_box now pr nms b (s, f)))
    = drop (length (alerts_log s)) (alerts_log (fst (handle_box now pr nms b (s, f))))"
  by (simp add: new_alerts_def)

lemma filter_new_alerts:
  "prefix (alerts_log s) (alerts_log s') \<Longrightarrow>
   length (filter P (new_alerts s s')) =
     length (filter P (alerts_log s')) - length (filter P (alerts_log s))"
  by (auto simp: new_alerts_def prefix_def)

lemma object_detection_prefix:
  "prefix (alerts_log s) (alerts_log (fst (object_detection now inp (s, f))))"
  using grows_object_detection[of "(s, f)" now inp] by (simp add: grows_def)

lemma object_detection_restricted:
  "length (filter restricted (alerts_log (fst (object_detection now inp (s, f))))) =
     length (filter restricted (alerts_log s)) +
     length (filter (hit (numpy_promotion inp) (names inp)) (case boxes inp of None \<Rightarrow> [] | Some bs \<Rightarrow> bs))"
  using fold_handle_box_restricted[of now "numpy_promotion inp" "names inp" _ "(s, f)"]
  by (simp add: object_detection_def split: option.splits)

section \<open>The threshold test\<close>

text \<open>
  The two constants are what they are said to be: \<open>CONF_THRESH\<close> is a binary64
  number within half a unit in the last place of 0.35, and \<open>CONF_THRESH_f32\<close>
  is a \<open>float32\<close> within half a unit in the last place of \<open>CONF_THRESH\<close>.  No
  \<open>float32\<close> lies strictly between \<open>CONF_THRESH_f32\<close> and 0.35, so among
  \<open>float32\<close> confidences the two promotion rules differ at \<open>CONF_THRESH_f32\<close>
  only.
\<close>

lemma conf_thresh_binary64:
  "CONF_THRESH = 6305039478318694 / 2 ^ 54 \<and> (2::nat) ^ 52 \<le> 6305039478318694 \<and>
   (6305039478318694::nat) < 2 ^ 53 \<and> \<bar>CONF_THRESH - 35 / 100\<bar> < 1 / 2 ^ 55"
  by (simp add: CONF_THRESH_def)

lemma conf_thresh_f32_val: "f32_val CONF_THRESH_f32 = 11744051 / 33554432"
  by (simp add: f32_val_def CONF_THRESH_f32_def)

lemma conf_thresh_float32:
  "f32_valid CONF_THRESH_f32 \<and> 2 ^ 23 \<le> f32_sig CONF_THRESH_f32 \<and>
   \<bar>f32_val CONF_THRESH_f32 - CONF_THRESH\<bar> < 1 / 2 ^ 26"
  by (simp add: conf_thresh_f32_val CONF_THRESH_def) (simp add: f32_valid_def CONF_THRESH_f32_def)

lemma thresholds_ordered: "f32_val CONF_THRESH_f32 < CONF_THRESH \<and> CONF_THRESH < 35 / 100"
  by (simp add: conf_thresh_f32_val CONF_THRESH_def)

lemma f32_gap:
  assumes v: "f32_valid c" and lo: "11744051 / 33554432 < f32_val c"
  shows "35 / 100 \<le> f32_val c"
proof (rule ccontr)
  assume "\<not> 35 / 100 \<le> f32_val c"
  then have hi: "f32_val c < 35 / 100" by simp
  from v have sig: "f32_sig c < 2 ^ 24" by (simp add: f32_valid_def)
  have pos: "\<not> f32_neg c"
  proof
    assume "f32_neg c"
    then have "f32_val c \<le> 0" by (simp add: f32_val_def Let_def)
    with lo show False by simp
  qed
  show False
  proof (cases "0 \<le> f32_exp c")
    case True
    with pos have e: "f32_val c = real (f32_sig c * 2 ^ nat (f32_exp c))"
      by (simp add: f32_val_def Let_def)
    from hi e have "f32_sig c * 2 ^ nat (f32_exp c) = 0"
      by linarith
    with e lo show False by simp
  next
    case False
    define n where "n = nat (- f32_exp c)"
    from False pos have e: "f32_val c = real (f32_sig c) / 2 ^ n"
      by (simp add: f32_val_def Let_def n_def)
    show False
    proof (cases "n \<le> 25")
      case True
      define k where "k = f32_sig c * 2 ^ (25 - n)"
      have pw: "(2::real) ^ n * 2 ^ (25 - n) = 33554432"
        using True by (simp add: power_add[symmetric])
      have "f32_val c * 33554432 = real (f32_sig c) / 2 ^ n * (2 ^ n * 2 ^ (25 - n))"
        by (simp only: e pw)
      also have "\<dots> = real (f32_sig c) * 2 ^ (25 - n)"
        by simp
      finally have "f32_val c * 33554432 = real k"
        by (simp add: k_def)
      then have ek: "f32_val c = real k / 33554432"
        by simp
      from lo ek have "11744051 < real k" by simp
      then have "11744052 \<le> k" by linarith
      moreover from hi ek have "real k * 100 < 35 * 33554432" by simp
      then have "k * 100 < 35 * 33554432" by linarith
      ultimately show False by simp
    next
      case False
      then have "(2::real) ^ 26 \<le> 2 ^ n" by (intro power_increasing) simp_all
      then have "real (f32_sig c) / 2 ^ n \<le> real (f32_sig c) / 2 ^ 26"
        by (intro divide_left_mono) simp_all
      also have "\<dots> < 2 ^ 24 / 2 ^ 26"
        using sig by (intro divide_strict_right_mono) simp_all
      finally have "f32_val c < 1 / 4" using e by simp
      with lo show False by simp
    qed
  qed
qed

lemma conf_below_value_based:
  "f32_valid c \<Longrightarrow> conf_below Value_based c = (f32_val c < 35 / 100)"
proof -
  assume v: "f32_valid c"
  show ?thesis
  proof (cases "f32_val c < CONF_THRESH")
    case True
    with thresholds_ordered show ?thesis by simp
  next
    case False
    with thresholds_ordered have "11744051 / 33554432 < f32_val c"
      by (simp add: conf_thresh_f32_val)
    from f32_gap[OF v this] False show ?thesis by simp
  qed
qed

lemma conf_below_weak: "conf_below Weak c = (f32_val c < 11744051 / 33554432)"
  by (simp add: conf_thresh_f32_val)

lemma conf_passes_above: "35 / 100 \<le> f32_val c \<Longrightarrow> \<not> conf_below pr c"
  using thresholds_ordered by (cases pr) auto

lemma conf_fails_below: "f32_val c < 11744051 / 33554432 \<Longrightarrow> conf_below pr c"
  using thresholds_ordered by (cases pr) (auto simp: conf_thresh_f32_val)

lemma conf_examples:
  "f32_val conf_035 = 11744051 / 33554432" "f32_val conf_035_next = 11744052 / 33554432"
  "f32_val conf_0349999 = 11744018 / 33554432" "f32_val conf_09 = 15099494 / 16777216"
  "f32_val conf_099 = 16609444 / 16777216"
  by (simp_all add: f32_val_def conf_035_def conf_035_next_def conf_0349999_def conf_09_def
      conf_099_def)

lemma conf_09_passes: "\<not> conf_below pr conf_09"
  by (rule conf_passes_above) (simp add: conf_examples)


lemma name_knife: "box_name knife_names 43 = ''knife''"
  by (simp add: knife_names_def box_name_def lower_def lower_char_def)

lemma name_person: "box_name knife_names 0 = ''person''"
  by (simp add: knife_names_def box_name_def lower_def lower_char_def)

lemma restricted_count_init:
  "length (filter restricted (new_alerts init_state (fst (handle_box now pr nms b (init_state, f))))) =
     (if hit pr nms b then 1 else 0)"
  using handle_box_restricted[of now pr nms b "(init_state, f)"]
  by (simp add: new_alerts_def init_state_def)

text \<open>
  Claim C2, as stated: an event is recorded if and only if the confidence is
  at least 0.35 and the label is in the set, and a confidence of exactly 0.35
  matches.  It fails at the \<open>float32\<close> number that 0.35 becomes in single
  precision, 0.3499999940395355.  Under weak promotion the knife detection
  with that confidence is recorded, although the confidence is below 0.35;
  under value-based promotion it is not recorded, although it is what a
  confidence of 0.35 is as a \<open>float32\<close>.
\<close>

theorem restricted_alert_iff_counterexample:
  "f32_valid conf_035 \<and> conf_035 = CONF_THRESH_f32 \<and> f32_val conf_035 < 35 / 100 \<and>
   box_name knife_names (box_cls (knife_at conf_035)) \<in> ALERT_CLASSES \<and>
   length (filter restricted (new_alerts init_state
     (fst (handle_box t0 Weak knife_names (knife_at conf_035) (init_state, img0))))) = 1 \<and>
   length (filter restricted (new_alerts init_state
     (fst (handle_box t0 Value_based knife_names (knife_at conf_035) (init_state, img0))))) = 0"
proof -
  have v: "f32_valid conf_035"
    by (simp add: f32_valid_def conf_035_def)
  have e: "conf_035 = CONF_THRESH_f32"
    by (simp add: conf_035_def CONF_THRESH_f32_def)
  have lt: "f32_val conf_035 < 35 / 100"
    by (simp add: conf_examples)
  have n: "box_name knife_names (box_cls (knife_at conf_035)) \<in> ALERT_CLASSES"
    by (simp add: knife_at_def name_knife ALERT_CLASSES_def)
  have w: "hit Weak knife_names (knife_at conf_035)"
    by (simp add: hit_def knife_at_def name_knife e)
  have o: "\<not> hit Value_based knife_names (knife_at conf_035)"
    by (simp add: hit_def knife_at_def conf_examples CONF_THRESH_def)
  show ?thesis
    using v e lt n w o by (simp add: restricted_count_init)
qed

text \<open>
  Claim C2, amended.  Handling one detection of the primary detector appends
  to the ledger exactly one fire or weapon event if its lowercased label is
  one of knife, gun, pistol, rifle, firearm, fire, flame, smoke and the test
  \<open>conf < CONF_THRESH\<close> is false, and no such event otherwise.  For a
  \<open>float32\<close> confidence the test is false under value-based promotion exactly
  when the confidence is at least 0.35, and under weak promotion exactly when
  it is at least 0.3499999940395355, the \<open>float32\<close> nearest to 0.35.  So under
  either rule every confidence of at least 0.35 matches and every confidence
  below 0.3499999940395355, such as 0.349999, does not.  A label outside the
  set appends nothing at all, whatever the confidence.  Over a whole frame,
  the number of fire or weapon events recorded by the object-detection block
  is the number of detections that satisfy the condition.
\<close>

theorem restricted_alert_iff:
  "let s1 = fst (handle_box now pr nms b (s, f));
       s2 = fst (object_detection now inp (s, f));
       c = box_conf b;
       name = box_name nms (box_cls b)
   in prefix (alerts_log s) (alerts_log s1) \<and>
      length (filter restricted (new_alerts s s1)) =
        (if \<not> conf_below pr c \<and> name \<in> ALERT_CLASSES then 1 else 0) \<and>
      (f32_valid c \<longrightarrow> conf_below Value_based c = (f32_val c < 35 / 100)) \<and>
      conf_below Weak c = (f32_val c < 11744051 / 33554432) \<and>
      (35 / 100 \<le> f32_val c \<longrightarrow> \<not> conf_below pr c) \<and>
      (f32_val c < 11744051 / 33554432 \<longrightarrow> conf_below pr c) \<and>
      (name \<notin> ALERT_CLASSES \<longrightarrow> new_alerts s s1 = []) \<and>
      prefix (alerts_log s) (alerts_log s2) \<and>
      length (filter restricted (new_alerts s s2)) =
        length (filter (hit (numpy_promotion inp) (names inp))
                  (case boxes inp of None \<Rightarrow> [] | Some bs \<Rightarrow> bs))"
proof -
  let ?s1 = "fst (handle_box now pr nms b (s, f))"
  let ?s2 = "fst (object_detection now inp (s, f))"
  let ?c = "box_conf b"
  let ?name = "box_name nms (box_cls b)"
  have h: "hit pr nms b = (\<not> conf_below pr ?c \<and> ?name \<in> ALERT_CLASSES)"
    by (simp add: hit_def ALERT_CLASSES_def)
  have a: "prefix (alerts_log s) (alerts_log ?s1)"
    by (rule handle_box_prefix)
  have b: "length (filter restricted (new_alerts s ?s1)) =
      (if \<not> conf_below pr ?c \<and> ?name \<in> ALERT_CLASSES then 1 else 0)"
    using handle_box_restricted[of now pr nms b "(s, f)"]
    by (simp add: filter_new_alerts[OF a] h)
  have v: "f32_valid ?c \<longrightarrow> conf_below Value_based ?c = (f32_val ?c < 35 / 100)"
    using conf_below_value_based[of ?c] by blast
  have w: "conf_below Weak ?c = (f32_val ?c < 11744051 / 33554432)"
    by (rule conf_below_weak)
  have up: "35 / 100 \<le> f32_val ?c \<longrightarrow> \<not> conf_below pr ?c"
    using conf_passes_above[of ?c pr] by blast
  have dn: "f32_val ?c < 11744051 / 33554432 \<longrightarrow> conf_below pr ?c"
    using conf_fails_below[of ?c pr] by blast
  have c: "?name \<notin> ALERT_CLASSES \<longrightarrow> new_alerts s ?s1 = []"
    by (simp add: new_alerts_def handle_box_log h)
  have d: "prefix (alerts_log s) (alerts_log ?s2)"
    by (rule object_detection_prefix)
  have e: "length (filter restricted (new_alerts s ?s2)) =
        length (filter (hit (numpy_promotion inp) (names inp))
                  (case boxes inp of None \<Rightarrow> [] | Some bs \<Rightarrow> bs))"
    by (simp add: filter_new_alerts[OF d] object_detection_restricted)
  show ?thesis
    unfolding Let_def using a b v w up dn c d e by blast
qed

theorem restricted_alert_iff_witness:
  "f32_valid conf_035_next \<and> 35 / 100 \<le> f32_val conf_035_next \<and>
   length (filter restricted (new_alerts init_state
     (fst (handle_box t0 Weak knife_names (knife_at conf_035_next) (init_state, img0))))) = 1 \<and>
   length (filter restricted (new_alerts init_state
     (fst (handle_box t0 Value_based knife_names (knife_at conf_035_next) (init_state, img0))))) = 1 \<and>
   f32_valid conf_0349999 \<and> f32_val conf_0349999 < 11744051 / 33554432 \<and>
   length (filter restricted (new_alerts init_state
     (fst (handle_box t0 Weak knife_names (knife_at conf_0349999) (init_state, img0))))) = 0 \<and>
   length (filter restricted (new_alerts init_state
     (fst (handle_box t0 Value_based knife_names (knife_at conf_0349999) (init_state, img0))))) = 0 \<and>
   box_name knife_names 0 \<notin> ALERT_CLASSES \<and>
   new_alerts init_state
     (fst (handle_box t0 Weak knife_names
        \<lparr>box_cls = 0, box_conf = conf_099, box_geo = GeoRaises\<rparr> (init_state, img0))) = []"
proof -
  have v1: "f32_valid conf_035_next" and v2: "f32_valid conf_0349999"
    by (simp_all add: f32_valid_def conf_035_next_def conf_0349999_def)
  have up: "35 / 100 \<le> f32_val conf_035_next"
    by (simp add: conf_examples)
  have dn: "f32_val conf_0349999 < 11744051 / 33554432"
    by (simp add: conf_examples)
  have nk: "box_name knife_names 43 \<in> ALERT_CLASSES"
    by (simp add: name_knife ALERT_CLASSES_def)
  have np: "box_name knife_names 0 \<notin> ALERT_CLASSES"
    by (simp add: name_person ALERT_CLASSES_def)
  show ?thesis
    using v1 v2 up dn nk np
      restricted_alert_iff[where s = init_state and now = t0 and f = img0 and pr = Weak
        and nms = knife_names and b = "knife_at conf_035_next"]
      restricted_alert_iff[where s = init_state and now = t0 and f = img0 and pr = Value_based
        and nms = knife_names and b = "knife_at conf_035_next"]
      restricted_alert_iff[where s = init_state and now = t0 and f = img0 and pr = Weak
        and nms = knife_names and b = "knife_at conf_0349999"]
      restricted_alert_iff[where s = init_state and now = t0 and f = img0 and pr = Value_based
        and nms = knife_names and b = "knife_at conf_0349999"]
      restricted_alert_iff[where s = init_state and now = t0 and f = img0 and pr = Weak
        and nms = knife_names
        and b = "\<lparr>box_cls = 0, box_conf = conf_099, box_geo = GeoRaises\<rparr>"]
    by (simp add: Let_def knife_at_def)
qed

lemma name_smoke: "box_name [(7, ''Smoke'')] 7 = ''smoke''"
  by (simp add: box_name_def lower_def lower_char_def)

text \<open>
  Claim C3.  The event recorded for a detection that satisfies the condition
  has the category fire exactly when its label contains \<open>fire\<close> or \<open>flame\<close>,
  that is for firearm, fire and flame, and the category weapon for knife,
  gun, pistol, rifle and smoke.
\<close>

theorem alert_category:
  assumes "hit pr nms b"
  shows "let name = box_name nms (box_cls b);
             s1 = fst (handle_box now pr nms b (s, f));
             a = alerts_log s1 ! length (alerts_log s)
         in filter restricted (new_alerts s s1) = [a] \<and>
            alert_type a = (if contains ''fire'' name \<or> contains ''flame'' name
                            then ''fire'' else ''weapon'') \<and>
            (alert_type a = ''fire'' \<longleftrightarrow> name \<in> {''firearm'', ''fire'', ''flame''}) \<and>
            (alert_type a = ''weapon'' \<longleftrightarrow> name \<in> {''knife'', ''gun'', ''pistol'', ''rifle'', ''smoke''})"
proof -
  let ?name = "box_name nms (box_cls b)"
  from assms have mem: "?name \<in> {''knife'', ''gun'', ''pistol'', ''rifle'', ''firearm'', ''fire'', ''flame'', ''smoke''}"
    by (simp add: hit_def)
  have cat: "(contains ''fire'' ?name \<or> contains ''flame'' ?name) = (?name \<in> {''firearm'', ''fire'', ''flame''})"
    using mem by auto
  have weap: "(?name \<in> {''knife'', ''gun'', ''pistol'', ''rifle'', ''smoke''}) = (?name \<notin> {''firearm'', ''fire'', ''flame''})"
    using mem by auto
  show ?thesis
    using assms
    by (simp add: Let_def handle_box_log new_alerts_def restricted_def cat weap del: insert_iff)
qed

theorem alert_category_witness:
  "hit Weak [(7, ''Smoke'')] \<lparr>box_cls = 7, box_conf = conf_09, box_geo = GeoRaises\<rparr> \<and>
   alert_type (alerts_log (fst (handle_box t0 Weak [(7, ''Smoke'')]
      \<lparr>box_cls = 7, box_conf = conf_09, box_geo = GeoRaises\<rparr> (init_state, img0))) ! 0) = ''weapon''"
proof -
  have h: "hit Weak [(7, ''Smoke'')] \<lparr>box_cls = 7, box_conf = conf_09, box_geo = GeoRaises\<rparr>"
    by (simp add: hit_def name_smoke conf_09_passes)
  show ?thesis
    using h alert_category[OF h, where s = init_state and now = t0 and f = img0]
    by (simp add: Let_def name_smoke init_state_def)
qed

lemma gps_block_drawn:
  "drawn (snd (gps_block now g (s, f))) =
     drawn f @ (if get_gps_location g \<noteq> (0, 0) then gps_marks (get_gps_location g) else [])"
  by (simp add: gps_block_def Let_def draw_def gps_marks_def)

lemma gps_block_new:
  "new_alerts s (fst (gps_block now g (s, f))) =
     (if get_gps_location g \<noteq> (0, 0) then [gps_alert now (next_alert_id s) (get_gps_location g)] else [])"
  by (simp add: new_alerts_def gps_block_log gps_alert_def)

lemma gps_block_zero: "get_gps_location g = (0, 0) \<Longrightarrow> gps_block now g sf = sf"
  by (simp add: gps_block_def)

lemma handle_box_hit:
  "hit pr nms b \<Longrightarrow>
   handle_box now pr nms b (s, f) =
     gps_block now (box_geo b)
       (play_beep (fst (add_alert now
          (box_name nms (box_cls b) @ '' detected (conf '' @ format_fixed 2 (f32_val (box_conf b)) @ '')'')
          (if contains ''fire'' (box_name nms (box_cls b)) \<or> contains ''flame'' (box_name nms (box_cls b))
           then ''fire'' else ''weapon'') s)), f)"
  by (simp add: handle_box_def hit_def ALERT_CLASSES_def Let_def)

lemma new_alerts_after_add:
  "new_alerts s (fst (gps_block now g (play_beep (fst (add_alert now m t s)), f))) =
     snd (add_alert now m t s) #
       (if get_gps_location g \<noteq> (0, 0) then [gps_alert now (next_alert_id s + 1) (get_gps_location g)] else [])"
  by (simp add: new_alerts_def gps_block_log gps_alert_def play_beep_def add_alert_def Let_def)

text \<open>
  Claim C10.  \<open>get_gps_location\<close> returns \<open>[0.0, 0.0]\<close> when the geolocator
  raises or reports failure.  After a fire or weapon alert, from the primary
  detector or from the colour heuristic, the loop records the GPS event and
  draws the two annotations if the returned position differs from
  \<open>[0.0, 0.0]\<close>, and does neither otherwise; a successful lookup of the
  position (0.0, 0.0) is treated like a failure.
\<close>

theorem gps_sentinel:
  "get_gps_location GeoRaises = (0, 0) \<and>
   get_gps_location (GeoResult False ll) = (0, 0) \<and>
   get_gps_location (GeoResult True ll) = ll \<and>
   gps_block now (GeoResult True (0, 0)) (s, f) = (s, f) \<and>
   (let r = gps_block now g (s, f); gps = get_gps_location g
    in new_alerts s (fst r) = (if gps \<noteq> (0, 0) then [gps_alert now (next_alert_id s) gps] else []) \<and>
       drawn (snd r) = drawn f @ (if gps \<noteq> (0, 0) then gps_marks gps else [])) \<and>
   (hit pr nms b \<longrightarrow>
     (let r = handle_box now pr nms b (s, f); gps = get_gps_location (box_geo b)
      in tl (new_alerts s (fst r)) =
           (if gps \<noteq> (0, 0) then [gps_alert now (next_alert_id s + 1) gps] else []) \<and>
         drawn (snd r) = drawn f @ (if gps \<noteq> (0, 0) then gps_marks gps else []))) \<and>
   (snd (detect_small_fire (contours inp) f) \<longrightarrow>
     (let r = small_fire_detection now inp (s, f); gps = get_gps_location (fire_geo inp)
      in tl (new_alerts s (fst r)) =
           (if gps \<noteq> (0, 0) then [gps_alert now (next_alert_id s + 1) gps] else []) \<and>
         drawn (snd r) = drawn (fst (detect_small_fire (contours inp) f))
                           @ (if gps \<noteq> (0, 0) then gps_marks gps else [])))"
proof -
  have a: "gps_block now (GeoResult True (0, 0)) (s, f) = (s, f)"
    by (simp add: gps_block_zero)
  have b: "let r = gps_block now g (s, f); gps = get_gps_location g
    in new_alerts s (fst r) = (if gps \<noteq> (0, 0) then [gps_alert now (next_alert_id s) gps] else []) \<and>
       drawn (snd r) = drawn f @ (if gps \<noteq> (0, 0) then gps_marks gps else [])"
    by (simp add: Let_def gps_block_new gps_block_drawn)
  have c: "hit pr nms b \<longrightarrow>
     (let r = handle_box now pr nms b (s, f); gps = get_gps_location (box_geo b)
      in tl (new_alerts s (fst r)) =
           (if gps \<noteq> (0, 0) then [gps_alert now (next_alert_id s + 1) gps] else []) \<and>
         drawn (snd r) = drawn f @ (if gps \<noteq> (0, 0) then gps_marks gps else []))"
    by (simp add: Let_def handle_box_hit new_alerts_after_add gps_block_drawn)
  have d: "snd (detect_small_fire (contours inp) f) \<longrightarrow>
     (let r = small_fire_detection now inp (s, f); gps = get_gps_location (fire_geo inp)
      in tl (new_alerts s (fst r)) =
           (if gps \<noteq> (0, 0) then [gps_alert now (next_alert_id s + 1) gps] else []) \<and>
         drawn (snd r) = drawn (fst (detect_small_fire (contours inp) f))
                           @ (if gps \<noteq> (0, 0) then gps_marks gps else []))"
    by (simp add: Let_def small_fire_detection_def new_alerts_after_add gps_block_drawn)
  show ?thesis
    using a b c d by simp
qed

theorem gps_sentinel_witness:
  "hit Weak [(7, ''Smoke'')] \<lparr>box_cls = 7, box_conf = conf_09, box_geo = GeoResult True (0, 0)\<rparr> \<and>
   tl (new_alerts init_state (fst (handle_box t0 Weak [(7, ''Smoke'')]
      \<lparr>box_cls = 7, box_conf = conf_09, box_geo = GeoResult True (0, 0)\<rparr> (init_state, img0)))) = [] \<and>
   drawn (snd (handle_box t0 Weak [(7, ''Smoke'')]
      \<lparr>box_cls = 7, box_conf = conf_09, box_geo = GeoResult True (0, 0)\<rparr> (init_state, img0))) = [] \<and>
   snd (detect_small_fire [(31, (1, 2, 3, 4))] img0) \<and>
   tl (new_alerts init_state (fst (small_fire_detection t0
      \<lparr>raw = img0, numpy_promotion = Weak, names = [], boxes = None, contours = [(31, (1, 2, 3, 4))],
       fire_geo = GeoResult True (12.5, -0.25), plot = None\<rparr> (init_state, img0)))) =
     [\<lparr>alert_id = 2, alert_time = ''2025-03-07 09:05:00'',
       alert_msg = ''GPS Location: 12.5000, -0.2500'', alert_type = ''info''\<rparr>]"
proof -
  have h: "hit Weak [(7, ''Smoke'')] \<lparr>box_cls = 7, box_conf = conf_09, box_geo = GeoResult True (0, 0)\<rparr>"
    by (simp add: hit_def name_smoke conf_09_passes)
  have k: "snd (detect_small_fire [(31, (1, 2, 3, 4))] img0)"
    by (simp add: detect_small_fire_def)
  have fm1: "format_fixed 4 (25 / 2) = ''12.5000''"
    by (simp add: format_fixed_def round_half_even_def zero_pad_def digit_char_def)
  have fm2: "format_fixed 4 (- (1 / 4)) = ''-0.2500''"
    by (simp add: format_fixed_def round_half_even_def zero_pad_def digit_char_def)
  have tm: "strftime_alert t0 = ''2025-03-07 09:05:00''"
    by (simp add: strftime_alert_def t0_def zero_pad_def digit_char_def)
  show ?thesis
    using h k
      gps_sentinel[where s = init_state and now = t0 and f = img0 and nms = "[(7, ''Smoke'')]"
        and b = "\<lparr>box_cls = 7, box_conf = conf_09, box_geo = GeoResult True (0, 0)\<rparr>"
        and inp = "\<lparr>raw = img0, numpy_promotion = Weak, names = [], boxes = None, contours = [(31, (1, 2, 3, 4))],
                     fire_geo = GeoResult True (12.5, -0.25), plot = None\<rparr>"]
    by (simp add: Let_def img0_def gps_alert_def fm1 fm2 tm init_state_def)
qed

section \<open>Routes and the start of the thread\<close>

text \<open>
  Claim C4.  While \<open>camera_running\<close> is set, \<open>/start_camera\<close> answers
  "Camera already running" and changes nothing: no thread is started and no
  session is created.  While it is not set, \<open>/stop_camera\<close> answers "Camera
  not running" and changes nothing.
\<close>

theorem start_stop_guard:
  "(camera_running s \<longrightarrow>
      start_camera s = (s, ''Camera already running'') \<and> step Start_camera s = s) \<and>
   (\<not> camera_running s \<longrightarrow>
      stop_camera s = (s, ''Camera not running'') \<and> step Stop_camera s = s)"
  by (simp add: start_camera_def stop_camera_def step_def)

theorem start_stop_guard_witness:
  "camera_running (step Start_camera init_state) \<and>
   threads (step Start_camera init_state) = [Spawned] \<and>
   start_camera (step Start_camera init_state) =
     (step Start_camera init_state, ''Camera already running'') \<and>
   run [Start_camera, Start_camera] init_state = run [Start_camera] init_state \<and>
   \<not> camera_running init_state \<and>
   stop_camera init_state = (init_state, ''Camera not running'') \<and>
   run [Stop_camera] init_state = init_state"
proof -
  have r: "camera_running (step Start_camera init_state)"
    by (simp add: step_def start_camera_def init_state_def)
  have t: "threads (step Start_camera init_state) = [Spawned]"
    by (simp add: step_def start_camera_def init_state_def)
  have i: "\<not> camera_running init_state"
    by (simp add: init_state_def)
  show ?thesis
    using r t i start_stop_guard[of "step Start_camera init_state"] start_stop_guard[of init_state]
    by simp
qed

text \<open>
  Claim C6.  With an empty ledger \<open>save_alerts_csv\<close> returns without writing
  a file and \<open>/download_alerts\<close> answers 404 "No alerts to download".  With
  a non-empty ledger both produce the same CSV: its header is id, time, msg,
  type and it has one row per event of the snapshot, in order; the file of
  \<open>save_alerts_csv\<close> is written into the session folder.
\<close>

theorem export_csv:
  "(alerts_log s = [] \<longrightarrow>
      save_alerts_csv now s = Inr s \<and>
      download_alerts now s = Status ''No alerts to download'' 404) \<and>
   (alerts_log s \<noteq> [] \<longrightarrow>
      download_alerts now s =
        Attachment ''text/csv'' (''alerts_'' @ strftime_stamp now @ ''.csv'') (write_csv (alerts_log s)) \<and>
      (case session_folder s of
         None \<Rightarrow> save_alerts_csv now s = Inl TypeError
       | Some folder \<Rightarrow>
           (\<exists>s'. save_alerts_csv now s = Inr s' \<and>
                 files s' = files s @
                   [(path_join folder (''alerts_'' @ strftime_stamp now @ ''.csv''),
                     write_csv (alerts_log s))])) \<and>
      csv_header (write_csv (alerts_log s)) = [''id'', ''time'', ''msg'', ''type''] \<and>
      length (csv_rows (write_csv (alerts_log s))) = length (get_alerts s) \<and>
      csv_rows (write_csv (alerts_log s)) = map alert_values (get_alerts s))"
  by (simp add: save_alerts_csv_def download_alerts_def write_csv_def alert_keys_def
      get_alerts_def Let_def split: option.splits)

lemma stamp_t0: "strftime_stamp t0 = ''20250307_090500''"
  by (simp add: strftime_stamp_def t0_def zero_pad_def digit_char_def)

lemma time_t0: "strftime_alert t0 = ''2025-03-07 09:05:00''"
  by (simp add: strftime_alert_def t0_def zero_pad_def digit_char_def)

theorem export_csv_witness:
  "alerts_log init_state = [] \<and>
   save_alerts_csv t0 init_state = Inr init_state \<and>
   download_alerts t0 init_state = Status ''No alerts to download'' 404 \<and>
   alerts_log one_alert_state \<noteq> [] \<and>
   download_alerts t0 one_alert_state =
     Attachment ''text/csv'' ''alerts_20250307_090500.csv''
       \<lparr>csv_header = [''id'', ''time'', ''msg'', ''type''],
        csv_rows = [[''1'', ''2025-03-07 09:05:00'', ''Smart Surveillance started'', ''info'']]\<rparr> \<and>
   (\<exists>s'. save_alerts_csv t0 one_alert_state = Inr s' \<and>
      files s' =
        [([''sessions'', ''x'', ''alerts_20250307_090500.csv''],
          \<lparr>csv_header = [''id'', ''time'', ''msg'', ''type''],
           csv_rows = [[''1'', ''2025-03-07 09:05:00'', ''Smart Surveillance started'', ''info'']]\<rparr>)])"
proof -
  have e: "alerts_log init_state = []"
    by (simp add: init_state_def)
  have lg: "alerts_log one_alert_state =
      [\<lparr>alert_id = 1, alert_time = ''2025-03-07 09:05:00'',
        alert_msg = ''Smart Surveillance started'', alert_type = ''info''\<rparr>]"
    by (simp add: one_alert_state_def main_startup_def add_alert_def init_state_def Let_def time_t0)
  have sf: "session_folder one_alert_state = Some [''sessions'', ''x'']"
    by (simp add: one_alert_state_def main_startup_def add_alert_def init_state_def Let_def)
  have fl: "files one_alert_state = []"
    by (simp add: one_alert_state_def main_startup_def add_alert_def init_state_def Let_def)
  have csv: "write_csv (alerts_log one_alert_state) =
      \<lparr>csv_header = [''id'', ''time'', ''msg'', ''type''],
       csv_rows = [[''1'', ''2025-03-07 09:05:00'', ''Smart Surveillance started'', ''info'']]\<rparr>"
    by (simp add: lg write_csv_def alert_keys_def alert_values_def str_int_def digit_char_def)
  have ne: "alerts_log one_alert_state \<noteq> []"
    by (simp add: lg)
  from e export_csv[of init_state t0]
  have a: "save_alerts_csv t0 init_state = Inr init_state \<and>
      download_alerts t0 init_state = Status ''No alerts to download'' 404"
    by simp
  from ne export_csv[of one_alert_state t0]
  have b: "download_alerts t0 one_alert_state =
      Attachment ''text/csv'' (''alerts_'' @ strftime_stamp t0 @ ''.csv'')
        (write_csv (alerts_log one_alert_state))"
    and c: "\<exists>s'. save_alerts_csv t0 one_alert_state = Inr s' \<and>
      files s' = files one_alert_state @
        [(path_join [''sessions'', ''x''] (''alerts_'' @ strftime_stamp t0 @ ''.csv''),
          write_csv (alerts_log one_alert_state))]"
    by (simp_all add: sf)
  show ?thesis
    using e ne a b c unfolding csv fl stamp_t0 path_join_def by simp
qed

text \<open>
  Claim C7.  When the camera cannot be opened, \<open>camera_detection\<close> records
  the one info event "Camera failed to open", clears \<open>camera_running\<close> and
  returns: no session folder is made or registered, no video writer is
  created, no file is written.
\<close>

theorem camera_open_failure:
  "camera_detection_begin False now s =
     (s\<lparr>alerts_log := alerts_log s @
           [\<lparr>alert_id = next_alert_id s, alert_time = strftime_alert now,
             alert_msg = ''Camera failed to open'', alert_type = ''info''\<rparr>],
        next_alert_id := next_alert_id s + 1,
        camera_running := False\<rparr>, Finished) \<and>
   (tid < length (threads s) \<and> threads s ! tid = Spawned \<longrightarrow>
      (let s' = step (Thread_begin tid False now) s
       in new_alerts s s' =
            [\<lparr>alert_id = next_alert_id s, alert_time = strftime_alert now,
              alert_msg = ''Camera failed to open'', alert_type = ''info''\<rparr>] \<and>
          \<not> camera_running s' \<and> threads s' ! tid = Finished \<and>
          session_folder s' = session_folder s \<and> all_sessions s' = all_sessions s \<and>
          video_writer s' = video_writer s \<and> sinks s' = sinks s \<and>
          dirs s' = dirs s \<and> files s' = files s \<and> frame s' = frame s))"
  by (simp add: camera_detection_begin_def add_alert_def Let_def step_def new_alerts_def)

theorem camera_open_failure_witness:
  "(let s = run [Start_camera] init_state; s' = step (Thread_begin 0 False t0) s
    in 0 < length (threads s) \<and> threads s ! 0 = Spawned \<and>
       alerts_log s' =
         [\<lparr>alert_id = 1, alert_time = ''2025-03-07 09:05:00'',
           alert_msg = ''Camera failed to open'', alert_type = ''info''\<rparr>] \<and>
       \<not> camera_running s' \<and> threads s' = [Finished] \<and>
       session_folder s' = None \<and> all_sessions s' = [] \<and> video_writer s' = None \<and>
       sinks s' = [] \<and> dirs s' = {} \<and> files s' = [])"
proof -
  let ?s = "step Start_camera init_state"
  have s: "?s = init_state\<lparr>camera_running := True, threads := [Spawned]\<rparr>"
    by (simp add: step_def start_camera_def init_state_def)
  have h: "0 < length (threads ?s) \<and> threads ?s ! 0 = Spawned"
    unfolding s by simp
  have th: "threads (step (Thread_begin 0 False t0) ?s) = [Finished]"
    unfolding s by (simp add: step_def camera_detection_begin_def add_alert_def Let_def init_state_def)
  have r: "run [Start_camera] init_state = ?s"
    by simp
  have c: "let s' = step (Thread_begin 0 False t0) ?s
       in new_alerts ?s s' =
            [\<lparr>alert_id = next_alert_id ?s, alert_time = strftime_alert t0,
              alert_msg = ''Camera failed to open'', alert_type = ''info''\<rparr>] \<and>
          \<not> camera_running s' \<and> threads s' ! 0 = Finished \<and>
          session_folder s' = session_folder ?s \<and> all_sessions s' = all_sessions ?s \<and>
          video_writer s' = video_writer ?s \<and> sinks s' = sinks ?s \<and>
          dirs s' = dirs ?s \<and> files s' = files ?s \<and> frame s' = frame ?s"
    using h camera_open_failure[of t0 ?s 0] by blast
  have v: "alerts_log ?s = []" "next_alert_id ?s = 1" "session_folder ?s = None"
    "all_sessions ?s = []" "video_writer ?s = None" "sinks ?s = []" "dirs ?s = {}" "files ?s = []"
    unfolding s by (simp_all add: init_state_def)
  show ?thesis
    unfolding r using h th c by (simp add: Let_def new_alerts_def v time_t0)
qed


section \<open>A session of three frames\<close>

lemma small_fire_loop_flag:
  "snd (small_fire_loop cs (f, d)) = (d \<or> (\<exists>c\<in>set cs. 30 < fst c))"
  by (induction cs "(f, d)" arbitrary: f d rule: small_fire_loop.induct) auto

lemma small_fire_loop_untouched:
  "\<not> snd (small_fire_loop cs (f, d)) \<Longrightarrow> fst (small_fire_loop cs (f, d)) = f"
proof (induction cs "(f, d)" arbitrary: f d rule: small_fire_loop.induct)
  case 1
  show ?case by simp
next
  case (2 area x y w h cs f d)
  show ?case
  proof (cases "30 < area")
    case True
    with "2.prems" show ?thesis by (simp add: small_fire_loop_flag)
  next
    case False
    with "2.prems" "2.hyps"(2) show ?thesis by simp
  qed
qed

lemma detect_small_fire_quiet:
  "\<not> snd (detect_small_fire cs f) \<Longrightarrow> detect_small_fire cs f = (f, False)"
  using small_fire_loop_untouched[of cs f False]
  by (simp add: detect_small_fire_def prod_eq_iff)

lemma quiet_pass:
  assumes "quiet inp" "video_writer s = Some h" "h < length (sinks s)"
    "\<not> sink_released (sinks s ! h)"
  shows "loop_body now inp s =
     (s\<lparr>frame := Some (shown inp),
        sinks := (sinks s)[h := (sinks s ! h)\<lparr>sink_frames := sink_frames (sinks s ! h) @ [shown inp]\<rparr>]\<rparr>,
      shown inp)"
proof -
  from assms(1) have od: "object_detection now inp (s, raw inp) = (s, raw inp)"
    by (auto simp: quiet_def object_detection_def)
  from assms(1) have "\<not> snd (detect_small_fire (contours inp) (raw inp))"
    by (simp add: quiet_def)
  then have sf: "small_fire_detection now inp (s, raw inp) = (s, raw inp)"
    by (simp add: small_fire_detection_def detect_small_fire_quiet)
  show ?thesis
    using assms(2-4) by (simp add: loop_body_def od sf shown_def sink_write_def Let_def split: option.splits)
qed

text \<open>
  Claim C5.  From the initial state with its empty ledger: the camera is
  started, it opens, it yields three frames on which neither detector flags
  anything, and the fourth read fails.  Then the session's video writer has
  received exactly the three annotated frames, in order, and is released; the
  ledger holds the single info event "Frame read failed"; and one CSV file
  has been written into the session folder, with that single row.
\<close>

theorem three_frames_then_eof:
  assumes "quiet f1" "quiet f2" "quiet f3"
  shows "let s = run [Start_camera, Thread_begin 0 True now0, Thread_iter 0 now1 (Some f1),
                      Thread_iter 0 now2 (Some f2), Thread_iter 0 now3 (Some f3),
                      Thread_iter 0 now4 None] init_state;
             folder = [''sessions'', strftime_stamp now0]
         in sinks s = [\<lparr>sink_path = folder @ [''recorded_video.mp4''],
                         sink_frames = [shown f1, shown f2, shown f3],
                         sink_released = True\<rparr>] \<and>
            alerts_log s = [\<lparr>alert_id = 1, alert_time = strftime_alert now4,
                              alert_msg = ''Frame read failed'', alert_type = ''info''\<rparr>] \<and>
            files s = [(folder @ [''alerts_'' @ strftime_stamp now4 @ ''.csv''],
                        \<lparr>csv_header = [''id'', ''time'', ''msg'', ''type''],
                         csv_rows = [[''1'', strftime_alert now4, ''Frame read failed'', ''info'']]\<rparr>)] \<and>
            all_sessions s = [folder] \<and> frame s = Some (shown f3) \<and>
            \<not> camera_running s \<and> threads s = [Finished]"
proof -
  define folder where "folder = [''sessions'', strftime_stamp now0]"
  define w0 where "w0 = \<lparr>sink_path = folder @ [''recorded_video.mp4''], sink_frames = [], sink_released = False\<rparr>"
  define s2 where "s2 = run [Start_camera, Thread_begin 0 True now0] init_state"
  have s2: "s2 = init_state\<lparr>camera_running := True, session_folder := Some folder,
      dirs := makedirs folder {}, all_sessions := [folder], sinks := [w0],
      video_writer := Some 0, threads := [Looping]\<rparr>"
    by (simp add: s2_def step_def start_camera_def camera_detection_begin_def init_state_def
        Let_def path_join_def folder_def w0_def)
  define s3 where "s3 = step (Thread_iter 0 now1 (Some f1)) s2"
  have s3: "s3 = s2\<lparr>frame := Some (shown f1), sinks := [w0\<lparr>sink_frames := [shown f1]\<rparr>]\<rparr>"
    unfolding s3_def
    by (simp add: s2 step_def loop_iteration_def Let_def init_state_def w0_def
        quiet_pass[OF assms(1), of _ 0])
  define s4 where "s4 = step (Thread_iter 0 now2 (Some f2)) s3"
  have s4: "s4 = s2\<lparr>frame := Some (shown f2), sinks := [w0\<lparr>sink_frames := [shown f1, shown f2]\<rparr>]\<rparr>"
    unfolding s4_def
    by (simp add: s3 s2 step_def loop_iteration_def Let_def init_state_def w0_def
        quiet_pass[OF assms(2), of _ 0])
  define s5 where "s5 = step (Thread_iter 0 now3 (Some f3)) s4"
  have s5: "s5 = s2\<lparr>frame := Some (shown f3), sinks := [w0\<lparr>sink_frames := [shown f1, shown f2, shown f3]\<rparr>]\<rparr>"
    unfolding s5_def
    by (simp add: s4 s2 step_def loop_iteration_def Let_def init_state_def w0_def
        quiet_pass[OF assms(3), of _ 0])
  define s6 where "s6 = step (Thread_iter 0 now4 None) s5"
  have mk: "folder \<in> makedirs folder {}"
    by (simp add: makedirs_def folder_def)
  have s6: "s6 = s5\<lparr>alerts_log := [\<lparr>alert_id = 1, alert_time = strftime_alert now4,
                              alert_msg = ''Frame read failed'', alert_type = ''info''\<rparr>],
        next_alert_id := 2,
        sinks := [w0\<lparr>sink_frames := [shown f1, shown f2, shown f3], sink_released := True\<rparr>],
        camera_running := False,
        files := [(folder @ [''alerts_'' @ strftime_stamp now4 @ ''.csv''],
                        \<lparr>csv_header = [''id'', ''time'', ''msg'', ''type''],
                         csv_rows = [[''1'', strftime_alert now4, ''Frame read failed'', ''info'']]\<rparr>)],
        threads := [Finished]\<rparr>"
    unfolding s6_def
    by (simp add: s5 s2 step_def loop_iteration_def Let_def init_state_def w0_def
        add_alert_def camera_detection_end_def sink_release_def save_alerts_csv_def mk
        write_csv_def alert_keys_def alert_values_def str_int_def digit_char_def path_join_def)
  have r: "run [Start_camera, Thread_begin 0 True now0, Thread_iter 0 now1 (Some f1),
                      Thread_iter 0 now2 (Some f2), Thread_iter 0 now3 (Some f3),
                      Thread_iter 0 now4 None] init_state = s6"
    by (simp add: s6_def s5_def s4_def s3_def s2_def)
  show ?thesis
    unfolding r Let_def folder_def[symmetric]
    by (simp add: s6 s5 s2 init_state_def w0_def)
qed

theorem three_frames_then_eof_witness:
  "quiet fr1 \<and> quiet fr2 \<and> quiet fr3 \<and>
   (let s = run [Start_camera, Thread_begin 0 True t0, Thread_iter 0 t0 (Some fr1),
                 Thread_iter 0 t0 (Some fr2), Thread_iter 0 t0 (Some fr3),
                 Thread_iter 0 t0 None] init_state
    in map (\<lambda>w. (sink_path w, map pixels (sink_frames w))) (sinks s) =
         [([''sessions'', ''20250307_090500'', ''recorded_video.mp4''], [11, 2, 13])] \<and>
       alerts_log s = [\<lparr>alert_id = 1, alert_time = ''2025-03-07 09:05:00'',
                         alert_msg = ''Frame read failed'', alert_type = ''info''\<rparr>] \<and>
       files s = [([''sessions'', ''20250307_090500'', ''alerts_20250307_090500.csv''],
                   \<lparr>csv_header = [''id'', ''time'', ''msg'', ''type''],
                    csv_rows = [[''1'', ''2025-03-07 09:05:00'', ''Frame read failed'', ''info'']]\<rparr>)])"
proof -
  have q1: "quiet fr1" by (simp add: quiet_def fr1_def detect_small_fire_def)
  have q2: "quiet fr2" by (simp add: quiet_def fr2_def detect_small_fire_def)
  have q3: "quiet fr3" by (simp add: quiet_def fr3_def detect_small_fire_def)
  have sh: "pixels (shown fr1) = 11" "pixels (shown fr2) = 2" "pixels (shown fr3) = 13"
    by (simp_all add: shown_def fr1_def fr2_def fr3_def)
  show ?thesis
    using q1 q2 q3 three_frames_then_eof[OF q1 q2 q3, of t0 t0 t0 t0 t0]
    by (simp add: Let_def sh stamp_t0 time_t0)
qed

section \<open>The preview buffer\<close>

lemma detection_only_refl: "detection_only s s"
  by (simp add: detection_only_def)

lemma detection_only_trans: "detection_only a b \<Longrightarrow> detection_only b c \<Longrightarrow> detection_only a c"
  unfolding detection_only_def
  by (cases a, cases b, cases c) simp

lemma detection_only_add_alert: "detection_only s (fst (add_alert now m t s))"
  by (simp add: detection_only_def add_alert_def Let_def)

lemma detection_only_play_beep: "detection_only s (play_beep s)"
  by (simp add: detection_only_def play_beep_def)

lemma detection_only_gps_block: "detection_only s (fst (gps_block now g (s, f)))"
  by (simp add: gps_block_def Let_def detection_only_refl detection_only_add_alert)

lemma detection_only_alert_beep_gps:
  "detection_only s (fst (gps_block now g (play_beep (fst (add_alert now m t s)), f)))"
  by (rule detection_only_trans[OF detection_only_trans[OF detection_only_add_alert detection_only_play_beep]
        detection_only_gps_block])

lemma detection_only_handle_box: "detection_only (fst sf) (fst (handle_box now pr nms b sf))"
  by (simp add: handle_box_def Let_def detection_only_refl detection_only_alert_beep_gps)

lemma detection_only_fold: "detection_only (fst sf) (fst (fold (handle_box now pr nms) bs sf))"
proof (induction bs arbitrary: sf)
  case Nil
  show ?case by (simp add: detection_only_refl)
next
  case (Cons b bs)
  show ?case
    using detection_only_trans[OF detection_only_handle_box Cons.IH] by simp
qed

lemma detection_only_object_detection:
  "detection_only (fst sf) (fst (object_detection now inp sf))"
  by (simp add: object_detection_def detection_only_refl detection_only_fold split: option.splits)

lemma detection_only_small_fire_detection:
  "detection_only (fst sf) (fst (small_fire_detection now inp sf))"
  by (simp add: small_fire_detection_def Let_def detection_only_refl detection_only_alert_beep_gps)

lemma detection_only_detectors:
  "detection_only s (fst (small_fire_detection now inp (object_detection now inp (s, f))))"
  using detection_only_trans[OF detection_only_object_detection[of "(s, f)" now inp]
      detection_only_small_fire_detection[of "object_detection now inp (s, f)" now inp]]
  by simp

lemma detection_only_fields:
  assumes "detection_only s s'"
  shows "frame s' = frame s" "session_folder s' = session_folder s" "threads s' = threads s"
    "video_writer s' = video_writer s" "sinks s' = sinks s" "files s' = files s"
    "camera_running s' = camera_running s" "dirs s' = dirs s" "all_sessions s' = all_sessions s"
proof -
  from assms have e: "s' = s\<lparr>alerts_log := alerts_log s', next_alert_id := next_alert_id s', beeps := beeps s'\<rparr>"
    by (simp add: detection_only_def)
  show "frame s' = frame s" by (subst e) simp
  show "session_folder s' = session_folder s" by (subst e) simp
  show "threads s' = threads s" by (subst e) simp
  show "video_writer s' = video_writer s" by (subst e) simp
  show "sinks s' = sinks s" by (subst e) simp
  show "files s' = files s" by (subst e) simp
  show "camera_running s' = camera_running s" by (subst e) simp
  show "dirs s' = dirs s" by (subst e) simp
  show "all_sessions s' = all_sessions s" by (subst e) simp
qed

lemma loop_body_frame: "frame (fst (loop_body now inp s)) = Some (snd (loop_body now inp s))"
  by (simp add: loop_body_def Let_def sink_write_def split: option.splits)

lemma loop_body_session:
  "session_folder (fst (loop_body now inp s)) = session_folder s \<and>
   threads (fst (loop_body now inp s)) = threads s \<and>
   files (fst (loop_body now inp s)) = files s"
  using detection_only_fields[OF detection_only_detectors[of s now inp "raw inp"]]
  by (simp add: loop_body_def Let_def sink_write_def split: option.splits)

lemma save_alerts_csv_fields:
  "save_alerts_csv now s = Inr s' \<Longrightarrow>
     frame s' = frame s \<and> session_folder s' = session_folder s \<and> threads s' = threads s \<and>
     alerts_log s' = alerts_log s"
  by (auto simp: save_alerts_csv_def Let_def split: if_splits option.splits)

lemma camera_detection_end_fields:
  "frame (camera_detection_end now s) = frame s \<and>
   session_folder (camera_detection_end now s) = session_folder s \<and>
   threads (camera_detection_end now s) = threads s \<and>
   alerts_log (camera_detection_end now s) = alerts_log s"
proof -
  define s2 where
    "s2 = (case video_writer s of None \<Rightarrow> s | Some h \<Rightarrow> sink_release h s)\<lparr>camera_running := False\<rparr>"
  have a: "frame s2 = frame s \<and> session_folder s2 = session_folder s \<and> threads s2 = threads s
      \<and> alerts_log s2 = alerts_log s"
    by (simp add: s2_def sink_release_def split: option.splits)
  have e: "camera_detection_end now s = (case save_alerts_csv now s2 of Inl e \<Rightarrow> s2 | Inr s3 \<Rightarrow> s3)"
    unfolding camera_detection_end_def s2_def Let_def by (rule refl)
  show ?thesis
  proof (cases "save_alerts_csv now s2")
    case (Inl err)
    then show ?thesis using a by (simp add: e)
  next
    case (Inr s3)
    from save_alerts_csv_fields[OF Inr] a show ?thesis by (simp add: e Inr)
  qed
qed

lemma add_alert_fields:
  "frame (fst (add_alert now m t s)) = frame s \<and>
   session_folder (fst (add_alert now m t s)) = session_folder s \<and>
   threads (fst (add_alert now m t s)) = threads s \<and>
   files (fst (add_alert now m t s)) = files s \<and>
   video_writer (fst (add_alert now m t s)) = video_writer s \<and>
   camera_running (fst (add_alert now m t s)) = camera_running s"
  by (simp add: add_alert_def Let_def)

lemma loop_iteration_frame:
  "frame (fst (loop_iteration now rd s)) =
     (case snd (snd (loop_iteration now rd s)) of None \<Rightarrow> frame s | Some fr \<Rightarrow> Some fr)"
  by (simp add: loop_iteration_def Let_def camera_detection_end_fields add_alert_fields
      loop_body_frame split: option.splits)

lemma loop_iteration_session:
  "session_folder (fst (loop_iteration now rd s)) = session_folder s \<and>
   threads (fst (loop_iteration now rd s)) = threads s"
  by (simp add: loop_iteration_def Let_def camera_detection_end_fields add_alert_fields
      loop_body_session split: option.splits)

lemma camera_detection_begin_frame:
  "frame (fst (camera_detection_begin opened now s)) = frame s \<and>
   threads (fst (camera_detection_begin opened now s)) = threads s"
  by (simp add: camera_detection_begin_def Let_def add_alert_def)

lemma step_out_frame:
  "frame (step e s) = (case snd (step_out e s) of None \<Rightarrow> frame s | Some fr \<Rightarrow> Some fr)"
proof (cases e)
  case (Startup now)
  then show ?thesis by (simp add: step_def main_startup_def add_alert_def Let_def)
next
  case Start_camera
  then show ?thesis by (simp add: step_def start_camera_def)
next
  case Stop_camera
  then show ?thesis by (simp add: step_def stop_camera_def)
next
  case (Thread_begin tid opened now)
  then show ?thesis by (simp add: step_def Let_def camera_detection_begin_frame)
next
  case (Thread_iter tid now rd)
  then show ?thesis by (simp add: step_def Let_def loop_iteration_frame)
qed

lemma run_frame:
  "frame (run es s) = (if produced es s = [] then frame s else Some (last (produced es s)))"
proof (induction es arbitrary: s)
  case Nil
  show ?case by simp
next
  case (Cons e es)
  show ?case
    using Cons.IH[of "step e s"] step_out_frame[of e s]
    by (simp split: option.splits)
qed

text \<open>
  Claim C8.  After any run of the process from its initial state the global
  \<open>frame\<close>, which is what the stream of \<open>/video_feed\<close> reads, is \<open>None\<close> if no
  pass of any detection loop has produced a frame yet, and otherwise the
  annotated frame produced last.  In particular, as soon as a thread inside
  the loop completes a pass on a frame it has read, the buffer holds the frame
  of that pass.
\<close>

theorem preview_latest_frame:
  "frame (run es init_state) =
     (if produced es init_state = [] then None else Some (last (produced es init_state))) \<and>
   generate_frames (run es init_state) = frame (run es init_state) \<and>
   (tid < length (threads s) \<and> threads s ! tid = Looping \<and> camera_running s \<longrightarrow>
      frame (step (Thread_iter tid now (Some inp)) s) = Some (snd (loop_body now inp s)) \<and>
      snd (step_out (Thread_iter tid now (Some inp)) s) = Some (snd (loop_body now inp s)))"
proof -
  have a: "frame (run es init_state) =
     (if produced es init_state = [] then None else Some (last (produced es init_state)))"
    using run_frame[of es init_state] by (simp add: init_state_def)
  have b: "tid < length (threads s) \<and> threads s ! tid = Looping \<and> camera_running s \<longrightarrow>
      frame (step (Thread_iter tid now (Some inp)) s) = Some (snd (loop_body now inp s)) \<and>
      snd (step_out (Thread_iter tid now (Some inp)) s) = Some (snd (loop_body now inp s))"
    by (simp add: step_def loop_iteration_def Let_def loop_body_frame)
  show ?thesis
    using a b by (simp add: generate_frames_def)
qed

lemma quiet_body:
  assumes "quiet inp"
  shows "loop_body now inp s =
     (case video_writer s of
        None \<Rightarrow> s\<lparr>frame := Some (shown inp)\<rparr>
      | Some h \<Rightarrow> sink_write h (shown inp) (s\<lparr>frame := Some (shown inp)\<rparr>),
      shown inp)"
proof -
  from assms have od: "object_detection now inp (s, raw inp) = (s, raw inp)"
    by (auto simp: quiet_def object_detection_def)
  from assms have "\<not> snd (detect_small_fire (contours inp) (raw inp))"
    by (simp add: quiet_def)
  then have sf: "small_fire_detection now inp (s, raw inp) = (s, raw inp)"
    by (simp add: small_fire_detection_def detect_small_fire_quiet)
  show ?thesis
    by (simp add: loop_body_def od sf shown_def Let_def split: option.splits)
qed

lemma quiet_frames: "quiet fr1" "quiet fr2" "quiet fr3"
  by (simp_all add: quiet_def fr1_def fr2_def fr3_def detect_small_fire_def)

lemma shown_frames:
  "shown fr1 = \<lparr>pixels = 11, drawn = []\<rparr>" "shown fr2 = \<lparr>pixels = 2, drawn = []\<rparr>"
  "shown fr3 = \<lparr>pixels = 13, drawn = []\<rparr>"
  by (simp_all add: shown_def fr1_def fr2_def fr3_def)

lemmas eval_defs = step_def start_camera_def stop_camera_def camera_detection_begin_def
  loop_iteration_def camera_detection_end_def save_alerts_csv_def sink_write_def sink_release_def
  init_state_def Let_def path_join_def

lemma two_sessions_state:
  "threads (run two_sessions init_state) = [Finished, Looping] \<and>
   camera_running (run two_sessions init_state) \<and>
   frame (run two_sessions init_state) = Some \<lparr>pixels = 11, drawn = []\<rparr> \<and>
   all_sessions (run two_sessions init_state) =
     [[''sessions'', ''20250307_090500''], [''sessions'', ''20250307_090500'']]"
  by (simp add: two_sessions_def eval_defs quiet_body[OF quiet_frames(1)] shown_frames stamp_t0)

lemma two_sessions_produced:
  "produced two_sessions init_state = [\<lparr>pixels = 11, drawn = []\<rparr>]"
  by (simp add: two_sessions_def eval_defs quiet_body[OF quiet_frames(1)] shown_frames stamp_t0)

theorem preview_latest_frame_witness:
  "frame (run [] init_state) = None \<and>
   frame (run two_sessions init_state) = Some \<lparr>pixels = 11, drawn = []\<rparr> \<and>
   1 < length (threads (run two_sessions init_state)) \<and>
   threads (run two_sessions init_state) ! 1 = Looping \<and>
   camera_running (run two_sessions init_state) \<and>
   frame (step (Thread_iter 1 t0 (Some fr3)) (run two_sessions init_state)) =
     Some \<lparr>pixels = 13, drawn = []\<rparr>"
proof -
  have h: "1 < length (threads (run two_sessions init_state)) \<and>
      threads (run two_sessions init_state) ! 1 = Looping \<and>
      camera_running (run two_sessions init_state)"
    by (simp add: two_sessions_state)
  have b: "snd (loop_body t0 fr3 (run two_sessions init_state)) = \<lparr>pixels = 13, drawn = []\<rparr>"
    by (simp add: quiet_body[OF quiet_frames(3)] shown_frames)
  show ?thesis
    using h preview_latest_frame[of "[]" 1 "run two_sessions init_state" t0 fr3]
      preview_latest_frame[of two_sessions 1 "run two_sessions init_state" t0 fr3]
    by (simp add: two_sessions_produced b)
qed

section \<open>The CSV file of a session\<close>

lemma session_inv_update:
  assumes "session_inv s" "session_folder s' = session_folder s" "threads s' = threads s"
    "tid < length (threads s)" "threads s ! tid = Looping"
  shows "session_inv (s'\<lparr>threads := (threads s')[tid := pc]\<rparr>)"
proof -
  from assms(4,5) have "Looping \<in> set (threads s)"
    by (metis nth_mem)
  with assms(1) have "session_folder s \<noteq> None"
    by (simp add: session_inv_def)
  with assms(2) show ?thesis
    by (simp add: session_inv_def)
qed

lemma session_inv_step: "session_inv s \<Longrightarrow> session_inv (step e s)"
proof (cases e)
  case (Startup now)
  assume "session_inv s"
  with Startup show ?thesis
    by (simp add: step_def main_startup_def add_alert_def Let_def session_inv_def)
next
  case Start_camera
  assume "session_inv s"
  with Start_camera show ?thesis
    by (simp add: step_def start_camera_def session_inv_def)
next
  case Stop_camera
  assume "session_inv s"
  with Stop_camera show ?thesis
    by (simp add: step_def stop_camera_def session_inv_def)
next
  case (Thread_begin tid opened now)
  assume inv: "session_inv s"
  show ?thesis
  proof (cases "tid < length (threads s) \<and> threads s ! tid = Spawned")
    case False
    with inv Thread_begin show ?thesis by (auto simp: step_def)
  next
    case True
    show ?thesis
    proof (cases opened)
      case True
      with \<open>tid < length (threads s) \<and> threads s ! tid = Spawned\<close> Thread_begin show ?thesis
        by (simp add: step_def camera_detection_begin_def Let_def session_inv_def)
    next
      case False
      have "Looping \<in> set ((threads s)[tid := Finished]) \<Longrightarrow> Looping \<in> set (threads s)"
        using set_update_subset_insert[of "threads s" tid Finished] by auto
      with False inv \<open>tid < length (threads s) \<and> threads s ! tid = Spawned\<close> Thread_begin
      show ?thesis
        by (auto simp: step_def camera_detection_begin_def add_alert_def Let_def session_inv_def)
    qed
  qed
next
  case (Thread_iter tid now rd)
  assume inv: "session_inv s"
  show ?thesis
  proof (cases "tid < length (threads s) \<and> threads s ! tid = Looping")
    case False
    with inv Thread_iter show ?thesis by (auto simp: step_def)
  next
    case True
    have "session_inv ((fst (loop_iteration now rd s))
        \<lparr>threads := (threads (fst (loop_iteration now rd s)))[tid := fst (snd (loop_iteration now rd s))]\<rparr>)"
      using session_inv_update[OF inv _ _ _ _, of "fst (loop_iteration now rd s)" tid] True
        loop_iteration_session[of now rd s]
      by simp
    with True Thread_iter show ?thesis
      by (simp add: step_def Let_def)
  qed
qed

lemma session_inv_run: "session_inv s \<Longrightarrow> session_inv (run es s)"
  by (induction es arbitrary: s) (simp_all add: session_inv_step)

lemma session_inv_init: "session_inv init_state"
  by (simp add: session_inv_def init_state_def)

lemma camera_detection_end_files:
  assumes "session_folder s = Some folder"
  shows "files (camera_detection_end now s) =
     files s @ (if alerts_log s = [] then []
                else [(path_join folder (''alerts_'' @ strftime_stamp now @ ''.csv''),
                       write_csv (alerts_log s))])"
proof -
  define s2 where
    "s2 = (case video_writer s of None \<Rightarrow> s | Some h \<Rightarrow> sink_release h s)\<lparr>camera_running := False\<rparr>"
  have a: "files s2 = files s \<and> session_folder s2 = Some folder \<and> alerts_log s2 = alerts_log s"
    using assms by (simp add: s2_def sink_release_def split: option.splits)
  have e: "camera_detection_end now s = (case save_alerts_csv now s2 of Inl e \<Rightarrow> s2 | Inr s3 \<Rightarrow> s3)"
    unfolding camera_detection_end_def s2_def Let_def by (rule refl)
  show ?thesis
    using a by (simp add: e save_alerts_csv_def Let_def)
qed

lemma loop_exit:
  assumes "\<not> camera_running s \<or> rd = None"
  shows "loop_iteration now rd s =
     (camera_detection_end now
        (if camera_running s then fst (add_alert now ''Frame read failed'' ''info'' s) else s),
      Finished, None)"
  using assms by (auto simp: loop_iteration_def)

text \<open>
  Claim C9.  When a detection thread leaves its loop, because the camera was
  stopped or the read failed, the CSV file it writes into the folder of the
  current session has one row for every event of the whole ledger: every
  event recorded at any earlier point of the run, in whatever session, is
  among its rows, in order.  Nothing is written only if the ledger is empty.
\<close>

theorem session_csv_cumulative:
  "let s1 = run es1 init_state; s2 = run es2 s1; s3 = step (Thread_iter tid now rd) s2
   in tid < length (threads s2) \<and> threads s2 ! tid = Looping \<and>
      (\<not> camera_running s2 \<or> rd = None) \<longrightarrow>
        (\<exists>folder. session_folder s2 = Some folder \<and>
           files s3 = files s2 @
             (if alerts_log s3 = [] then []
              else [(path_join folder (''alerts_'' @ strftime_stamp now @ ''.csv''),
                     write_csv (alerts_log s3))])) \<and>
        prefix (alerts_log s1) (alerts_log s3) \<and>
        prefix (map alert_values (alerts_log s1)) (csv_rows (write_csv (alerts_log s3))) \<and>
        threads s3 ! tid = Finished"
proof -
  define s1 where "s1 = run es1 init_state"
  define s2 where "s2 = run es2 s1"
  define s3 where "s3 = step (Thread_iter tid now rd) s2"
  have pre: "prefix (alerts_log s1) (alerts_log s3)"
    using grows_trans[OF grows_run[of s1 es2] grows_step[of "run es2 s1" "Thread_iter tid now rd"]]
    by (simp add: grows_def s2_def s3_def)
  then have rows: "prefix (map alert_values (alerts_log s1)) (csv_rows (write_csv (alerts_log s3)))"
    by (auto simp: write_csv_def prefix_def)
  have main: "(\<exists>folder. session_folder s2 = Some folder \<and>
           files s3 = files s2 @
             (if alerts_log s3 = [] then []
              else [(path_join folder (''alerts_'' @ strftime_stamp now @ ''.csv''),
                     write_csv (alerts_log s3))])) \<and> threads s3 ! tid = Finished"
    if live: "tid < length (threads s2)" "threads s2 ! tid = Looping"
      and ex: "\<not> camera_running s2 \<or> rd = None"
  proof -
    have "session_inv s2"
      unfolding s2_def s1_def by (intro session_inv_run session_inv_init)
    moreover from live have "Looping \<in> set (threads s2)"
      by (metis nth_mem)
    ultimately obtain folder where f: "session_folder s2 = Some folder"
      by (auto simp: session_inv_def)
    define x where
      "x = (if camera_running s2 then fst (add_alert now ''Frame read failed'' ''info'' s2) else s2)"
    have x: "session_folder x = Some folder" "files x = files s2" "threads x = threads s2"
      using f by (simp_all add: x_def add_alert_fields)
    have it: "loop_iteration now rd s2 = (camera_detection_end now x, Finished, None)"
      unfolding x_def by (rule loop_exit[OF ex])
    have s3: "s3 = (camera_detection_end now x)
        \<lparr>threads := (threads (camera_detection_end now x))[tid := Finished]\<rparr>"
      using live by (simp add: s3_def step_def it Let_def)
    have lg: "alerts_log s3 = alerts_log x"
      by (simp add: s3 camera_detection_end_fields)
    have fl: "files s3 = files s2 @
             (if alerts_log s3 = [] then []
              else [(path_join folder (''alerts_'' @ strftime_stamp now @ ''.csv''),
                     write_csv (alerts_log s3))])"
      using camera_detection_end_files[OF x(1), of now] by (simp add: s3 x(2) camera_detection_end_fields)
    have th: "threads s3 ! tid = Finished"
      using live by (simp add: s3 camera_detection_end_fields x(3))
    show ?thesis
      using f fl th by simp
  qed
  show ?thesis
    using pre rows main
    unfolding Let_def s1_def[symmetric] s2_def[symmetric] s3_def[symmetric]
    by blast
qed

lemma stamp_t1: "strftime_stamp t1 = ''20250307_090630''"
  by (simp add: strftime_stamp_def t1_def zero_pad_def digit_char_def)

lemmas eval_more = add_alert_def write_csv_def alert_keys_def alert_values_def str_int_def
  digit_char_def makedirs_def

lemma second_session_state:
  "threads (run second_session (run first_session init_state)) = [Finished, Looping] \<and>
   \<not> camera_running (run second_session (run first_session init_state)) \<and>
   alerts_log (run first_session init_state) =
     [\<lparr>alert_id = 1, alert_time = ''2025-03-07 09:05:00'',
       alert_msg = ''Frame read failed'', alert_type = ''info''\<rparr>] \<and>
   session_folder (run second_session (run first_session init_state)) =
     Some [''sessions'', ''20250307_090630''] \<and>
   files (run second_session (run first_session init_state)) =
     [([''sessions'', ''20250307_090500'', ''alerts_20250307_090500.csv''],
       \<lparr>csv_header = [''id'', ''time'', ''msg'', ''type''],
        csv_rows = [[''1'', ''2025-03-07 09:05:00'', ''Frame read failed'', ''info'']]\<rparr>)]"
  by (simp add: first_session_def second_session_def eval_defs eval_more stamp_t0 stamp_t1 time_t0)

lemma second_session_exit:
  "alerts_log (step (Thread_iter 1 t1 (Some fr1)) (run second_session (run first_session init_state))) =
     [\<lparr>alert_id = 1, alert_time = ''2025-03-07 09:05:00'',
       alert_msg = ''Frame read failed'', alert_type = ''info''\<rparr>]"
  by (simp add: first_session_def second_session_def eval_defs eval_more stamp_t0 stamp_t1 time_t0)

theorem session_csv_cumulative_witness:
  "(let s1 = run first_session init_state; s2 = run second_session s1;
        s3 = step (Thread_iter 1 t1 (Some fr1)) s2
    in 1 < length (threads s2) \<and> threads s2 ! 1 = Looping \<and> \<not> camera_running s2 \<and>
       files s3 =
         [([''sessions'', ''20250307_090500'', ''alerts_20250307_090500.csv''],
           \<lparr>csv_header = [''id'', ''time'', ''msg'', ''type''],
            csv_rows = [[''1'', ''2025-03-07 09:05:00'', ''Frame read failed'', ''info'']]\<rparr>),
          ([''sessions'', ''20250307_090630'', ''alerts_20250307_090630.csv''],
           \<lparr>csv_header = [''id'', ''time'', ''msg'', ''type''],
            csv_rows = [[''1'', ''2025-03-07 09:05:00'', ''Frame read failed'', ''info'']]\<rparr>)] \<and>
       threads s3 ! 1 = Finished)"
proof -
  define s2 where "s2 = run second_session (run first_session init_state)"
  define s3 where "s3 = step (Thread_iter 1 t1 (Some fr1)) s2"
  have h: "1 < length (threads s2) \<and> threads s2 ! 1 = Looping \<and> \<not> camera_running s2"
    unfolding s2_def by (simp add: second_session_state)
  then have hyp: "1 < length (threads s2) \<and> threads s2 ! 1 = Looping \<and>
      (\<not> camera_running s2 \<or> Some fr1 = None)"
    by simp
  have c: "(\<exists>folder. session_folder s2 = Some folder \<and>
           files s3 = files s2 @
             (if alerts_log s3 = [] then []
              else [(path_join folder (''alerts_'' @ strftime_stamp t1 @ ''.csv''),
                     write_csv (alerts_log s3))])) \<and> threads s3 ! 1 = Finished"
    using hyp session_csv_cumulative[of first_session second_session 1 t1 "Some fr1"]
    unfolding Let_def s2_def[symmetric] s3_def[symmetric] by blast
  have lg: "alerts_log s3 =
     [\<lparr>alert_id = 1, alert_time = ''2025-03-07 09:05:00'',
       alert_msg = ''Frame read failed'', alert_type = ''info''\<rparr>]"
    unfolding s3_def s2_def by (rule second_session_exit)
  have sf: "session_folder s2 = Some [''sessions'', ''20250307_090630'']"
    unfolding s2_def by (simp add: second_session_state)
  have fl: "files s2 =
     [([''sessions'', ''20250307_090500'', ''alerts_20250307_090500.csv''],
       \<lparr>csv_header = [''id'', ''time'', ''msg'', ''type''],
        csv_rows = [[''1'', ''2025-03-07 09:05:00'', ''Frame read failed'', ''info'']]\<rparr>)]"
    unfolding s2_def by (simp add: second_session_state)
  have "files s3 = files s2 @
      [(path_join [''sessions'', ''20250307_090630''] (''alerts_'' @ strftime_stamp t1 @ ''.csv''),
        write_csv (alerts_log s3))]"
    using c by (simp add: sf lg)
  then have f3: "files s3 =
         [([''sessions'', ''20250307_090500'', ''alerts_20250307_090500.csv''],
           \<lparr>csv_header = [''id'', ''time'', ''msg'', ''type''],
            csv_rows = [[''1'', ''2025-03-07 09:05:00'', ''Frame read failed'', ''info'']]\<rparr>),
          ([''sessions'', ''20250307_090630'', ''alerts_20250307_090630.csv''],
           \<lparr>csv_header = [''id'', ''time'', ''msg'', ''type''],
            csv_rows = [[''1'', ''2025-03-07 09:05:00'', ''Frame read failed'', ''info'']]\<rparr>)]"
    by (simp add: fl lg stamp_t1 path_join_def eval_more)
  show ?thesis
    unfolding Let_def s2_def[symmetric] s3_def[symmetric]
    using h f3 c by simp
qed

end
